theory Spec2Isabelle
  imports Complex_Main "HOL-Library.Char_ord" "HOL-Library.List_Lexorder" "HOL-Library.Log_Nat"
begin

section \<open>JavaScript numbers\<close>

text \<open>
  A JavaScript \<^verbatim>\<open>number\<close> is an IEEE 754 double: not-a-number, an infinity, or a finite
  value, here the rational it denotes. The two zeros are not told apart; no operation used
  below distinguishes them. Every arithmetic result is rounded to the nearest double, ties
  to the even significand, by \<open>fl\<close>: the unit in the last place of \<open>r\<close> is
  \<open>2 powi (max (ilog2 r) (- 1022) - 52)\<close>, where \<open>ilog2 r\<close> is the integer part of the binary
  logarithm of \<open>\<bar>r\<bar>\<close>, and a result of magnitude \<open>2 ^ 1024\<close> or more is an infinity.
  A finite value that the program holds is a double, that is \<open>fl r = Finite r\<close>; the
  statements below that range over all numbers hold for every \<open>Finite r\<close>, and the
  examples use doubles only.
\<close>

datatype number = NaN | PosInf | NegInf | Finite rat

definition ilog2 :: "rat \<Rightarrow> int" where
  "ilog2 r = (if 1 \<le> \<bar>r\<bar> then int (floorlog 2 (nat \<lfloor>\<bar>r\<bar>\<rfloor>)) - 1
              else - int (floorlog 2 (nat (\<lceil>1 / \<bar>r\<bar>\<rceil> - 1))))"

definition round_even :: "rat \<Rightarrow> int" where
  "round_even q =
     (let f = \<lfloor>q\<rfloor>; d = q - of_int f
      in if d < 1 / 2 then f else if 1 / 2 < d then f + 1 else if even f then f else f + 1)"

definition fl :: "rat \<Rightarrow> number" where
  "fl r =
     (let u = 2 powi (max (ilog2 r) (- 1022) - 52);
          v = of_int (round_even (r / u)) * u
      in if 2 ^ 1024 \<le> \<bar>v\<bar> then (if 0 < r then PosInf else NegInf) else Finite v)"

text \<open>\<^verbatim>\<open>a + b\<close>, \<^verbatim>\<open>-a\<close>, \<^verbatim>\<open>a - b\<close>, \<^verbatim>\<open>Math.abs(a)\<close> and \<^verbatim>\<open>a > b\<close> on numbers.\<close>

fun js_add :: "number \<Rightarrow> number \<Rightarrow> number" where
  "js_add (Finite a) (Finite b) = fl (a + b)"
| "js_add NaN b = NaN"
| "js_add a NaN = NaN"
| "js_add PosInf NegInf = NaN"
| "js_add NegInf PosInf = NaN"
| "js_add PosInf b = PosInf"
| "js_add a PosInf = PosInf"
| "js_add NegInf b = NegInf"
| "js_add a NegInf = NegInf"

fun js_neg :: "number \<Rightarrow> number" where
  "js_neg NaN = NaN"
| "js_neg PosInf = NegInf"
| "js_neg NegInf = PosInf"
| "js_neg (Finite a) = Finite (- a)"

definition js_sub :: "number \<Rightarrow> number \<Rightarrow> number" where
  "js_sub a b = js_add a (js_neg b)"

fun js_abs :: "number \<Rightarrow> number" where
  "js_abs NaN = NaN"
| "js_abs PosInf = PosInf"
| "js_abs NegInf = PosInf"
| "js_abs (Finite a) = Finite \<bar>a\<bar>"

fun js_gt :: "number \<Rightarrow> number \<Rightarrow> bool" where
  "js_gt (Finite a) (Finite b) = (b < a)"
| "js_gt NaN b = False"
| "js_gt a NaN = False"
| "js_gt PosInf PosInf = False"
| "js_gt PosInf b = True"
| "js_gt a PosInf = False"
| "js_gt NegInf b = False"
| "js_gt a NegInf = True"

text \<open>The literals \<^verbatim>\<open>0\<close> and \<^verbatim>\<open>0.01\<close>; a decimal literal denotes the nearest double.\<close>

abbreviation zero :: number where
  "zero \<equiv> Finite 0"

definition lit_0_01 :: number where
  "lit_0_01 = fl (1 / 100)"

text \<open>
  A value that is a number or \<^verbatim>\<open>undefined\<close> (an omitted property, a missing map key) is a
  \<open>number option\<close>. \<^verbatim>\<open>x || 0\<close> yields 0 for undefined, not-a-number and zero, and \<open>x\<close>
  otherwise; as an operand of \<^verbatim>\<open>+\<close> or \<^verbatim>\<open>-\<close>, undefined converts to not-a-number.
\<close>

fun or0 :: "number option \<Rightarrow> number" where
  "or0 None = zero"
| "or0 (Some NaN) = zero"
| "or0 (Some (Finite r)) = (if r = 0 then zero else Finite r)"
| "or0 (Some x) = x"

fun toNumber :: "number option \<Rightarrow> number" where
  "toNumber None = NaN"
| "toNumber (Some x) = x"

section \<open>Data model (src/api/types.ts)\<close>

text \<open>
  Identifiers come from \<^verbatim>\<open>uuidv4()\<close>; the generator is modelled as a counter that is
  part of the state, so every call returns a value never returned before. Timestamps
  (\<^verbatim>\<open>new Date()\<close>) are passed to each operation by its caller. Strings are lists of
  characters, compared lexicographically by character code as JavaScript compares them by
  code unit.
\<close>

type_synonym uuid = nat
type_synonym timestamp = nat

text \<open>
  \<^verbatim>\<open>AccountType\<close> is a union of five string literals. It is a string at run time, and
  \<^verbatim>\<open>POST /accounts\<close> stores whatever string it is given.
\<close>

type_synonym AccountType = string

abbreviation asset :: AccountType where "asset \<equiv> ''asset''"
abbreviation liability :: AccountType where "liability \<equiv> ''liability''"
abbreviation equity :: AccountType where "equity \<equiv> ''equity''"
abbreviation revenue :: AccountType where "revenue \<equiv> ''revenue''"
abbreviation expense :: AccountType where "expense \<equiv> ''expense''"

text \<open>
  \<^verbatim>\<open>name\<close> and \<^verbatim>\<open>category\<close> are declared \<^verbatim>\<open>string\<close>, but the stored object can hold
  \<^verbatim>\<open>undefined\<close> there (see \<^verbatim>\<open>PUT /accounts/:id\<close>); \<open>None\<close> is \<^verbatim>\<open>undefined\<close>.
\<close>

record Account =
  acc_id :: uuid
  acc_code :: string
  acc_name :: "string option"
  acc_type :: AccountType
  acc_category :: "string option"
  acc_parentId :: "uuid option"
  acc_createdAt :: timestamp
  acc_updatedAt :: timestamp

text \<open>
  The amounts are declared \<^verbatim>\<open>number\<close>, but a line stored through
  \<^verbatim>\<open>POST /journal-entries\<close> is the line of the request body, in which either amount may
  be missing; \<open>None\<close> is a missing amount.
\<close>

record JournalLine =
  line_id :: uuid
  line_journalEntryId :: uuid
  line_accountId :: uuid
  line_accountName :: "string option"
  line_debitAmount :: "number option"
  line_creditAmount :: "number option"

text \<open>
  \<^verbatim>\<open>date\<close> and \<^verbatim>\<open>description\<close> can become \<^verbatim>\<open>undefined\<close> through
  \<^verbatim>\<open>PUT /journal-entries/:id\<close>; \<^verbatim>\<open>isClosed\<close> is optional.
\<close>

record JournalEntry =
  entry_id :: uuid
  entry_date :: "string option"
  entry_description :: "string option"
  entry_lines :: "JournalLine list"
  entry_createdAt :: timestamp
  entry_updatedAt :: timestamp
  entry_isClosed :: "bool option"

record TrialBalance =
  totalDebit :: number
  totalCredit :: number

record BalanceSheet =
  assets_total :: number
  liabilities_total :: number
  equity_total :: number

section \<open>The in-memory database (class Database)\<close>

record Database =
  accounts :: "Account list"
  journalEntries :: "JournalEntry list"
  uuid_state :: nat

definition uuidv4 :: "nat \<Rightarrow> uuid \<times> nat" where
  "uuidv4 g = (g, Suc g)"

text \<open>
  \<^verbatim>\<open>STANDARD_ACCOUNTS\<close>: the nineteen accounts of the standard chart. Their identifiers
  are drawn once, when the module is loaded, and are the first nineteen that the generator
  hands out. Names and categories are the UTF-8 bytes of the Japanese strings of the source.
\<close>

record StandardAccount =
  sa_id :: uuid
  sa_code :: string
  sa_type :: AccountType
  sa_name :: string
  sa_category :: string

definition STANDARD_ACCOUNTS :: "StandardAccount list" where
  "STANDARD_ACCOUNTS =
     [
      \<lparr>sa_id = 0, sa_code = ''100'', sa_type = asset,
       sa_name = [CHR 0xE7, CHR 0x8F, CHR 0xBE, CHR 0xE9, CHR 0x87, CHR 0x91],
       sa_category = [CHR 0xE6, CHR 0xB5, CHR 0x81, CHR 0xE5, CHR 0x8B, CHR 0x95, CHR 0xE8, CHR 0xB3, CHR 0x87,
                      CHR 0xE7, CHR 0x94, CHR 0xA3]\<rparr>,
      \<lparr>sa_id = 1, sa_code = ''101'', sa_type = asset,
       sa_name = [CHR 0xE9, CHR 0xA0, CHR 0x90, CHR 0xE9, CHR 0x87, CHR 0x91],
       sa_category = [CHR 0xE6, CHR 0xB5, CHR 0x81, CHR 0xE5, CHR 0x8B, CHR 0x95, CHR 0xE8, CHR 0xB3, CHR 0x87,
                      CHR 0xE7, CHR 0x94, CHR 0xA3]\<rparr>,
      \<lparr>sa_id = 2, sa_code = ''110'', sa_type = asset,
       sa_name = [CHR 0xE5, CHR 0xA3, CHR 0xB2, CHR 0xE6, CHR 0x8E, CHR 0x9B, CHR 0xE9, CHR 0x87, CHR 0x91],
       sa_category = [CHR 0xE6, CHR 0xB5, CHR 0x81, CHR 0xE5, CHR 0x8B, CHR 0x95, CHR 0xE8, CHR 0xB3, CHR 0x87,
                      CHR 0xE7, CHR 0x94, CHR 0xA3]\<rparr>,
      \<lparr>sa_id = 3, sa_code = ''120'', sa_type = asset,
       sa_name = [CHR 0xE5, CHR 0x95, CHR 0x86, CHR 0xE5, CHR 0x93, CHR 0x81],
       sa_category = [CHR 0xE6, CHR 0xB5, CHR 0x81, CHR 0xE5, CHR 0x8B, CHR 0x95, CHR 0xE8, CHR 0xB3, CHR 0x87,
                      CHR 0xE7, CHR 0x94, CHR 0xA3]\<rparr>,
      \<lparr>sa_id = 4, sa_code = ''150'', sa_type = asset,
       sa_name = [CHR 0xE5, CHR 0x82, CHR 0x99, CHR 0xE5, CHR 0x93, CHR 0x81],
       sa_category = [CHR 0xE5, CHR 0x9B, CHR 0xBA, CHR 0xE5, CHR 0xAE, CHR 0x9A, CHR 0xE8, CHR 0xB3, CHR 0x87,
                      CHR 0xE7, CHR 0x94, CHR 0xA3]\<rparr>,
      \<lparr>sa_id = 5, sa_code = ''160'', sa_type = asset,
       sa_name = [CHR 0xE5, CHR 0xBB, CHR 0xBA, CHR 0xE7, CHR 0x89, CHR 0xA9],
       sa_category = [CHR 0xE5, CHR 0x9B, CHR 0xBA, CHR 0xE5, CHR 0xAE, CHR 0x9A, CHR 0xE8, CHR 0xB3, CHR 0x87,
                      CHR 0xE7, CHR 0x94, CHR 0xA3]\<rparr>,
      \<lparr>sa_id = 6, sa_code = ''200'', sa_type = liability,
       sa_name = [CHR 0xE8, CHR 0xB2, CHR 0xB7, CHR 0xE6, CHR 0x8E, CHR 0x9B, CHR 0xE9, CHR 0x87, CHR 0x91],
       sa_category = [CHR 0xE6, CHR 0xB5, CHR 0x81, CHR 0xE5, CHR 0x8B, CHR 0x95, CHR 0xE8, CHR 0xB2, CHR 0xA0,
                      CHR 0xE5, CHR 0x82, CHR 0xB5]\<rparr>,
      \<lparr>sa_id = 7, sa_code = ''210'', sa_type = liability,
       sa_name = [CHR 0xE6, CHR 0x9C, CHR 0xAA, CHR 0xE6, CHR 0x89, CHR 0x95, CHR 0xE9, CHR 0x87, CHR 0x91],
       sa_category = [CHR 0xE6, CHR 0xB5, CHR 0x81, CHR 0xE5, CHR 0x8B, CHR 0x95, CHR 0xE8, CHR 0xB2, CHR 0xA0,
                      CHR 0xE5, CHR 0x82, CHR 0xB5]\<rparr>,
      \<lparr>sa_id = 8, sa_code = ''250'', sa_type = liability,
       sa_name = [CHR 0xE5, CHR 0x80, CHR 0x9F, CHR 0xE5, CHR 0x85, CHR 0xA5, CHR 0xE9, CHR 0x87, CHR 0x91],
       sa_category = [CHR 0xE5, CHR 0x9B, CHR 0xBA, CHR 0xE5, CHR 0xAE, CHR 0x9A, CHR 0xE8, CHR 0xB2, CHR 0xA0,
                      CHR 0xE5, CHR 0x82, CHR 0xB5]\<rparr>,
      \<lparr>sa_id = 9, sa_code = ''300'', sa_type = equity,
       sa_name = [CHR 0xE8, CHR 0xB3, CHR 0x87, CHR 0xE6, CHR 0x9C, CHR 0xAC, CHR 0xE9, CHR 0x87, CHR 0x91],
       sa_category = [CHR 0xE8, CHR 0xB3, CHR 0x87, CHR 0xE6, CHR 0x9C, CHR 0xAC, CHR 0xE9, CHR 0x87, CHR 0x91]\<rparr>,
      \<lparr>sa_id = 10, sa_code = ''310'', sa_type = equity,
       sa_name = [CHR 0xE5, CHR 0x88, CHR 0xA9, CHR 0xE7, CHR 0x9B, CHR 0x8A, CHR 0xE5, CHR 0x89, CHR 0xB0,
                  CHR 0xE4, CHR 0xBD, CHR 0x99, CHR 0xE9, CHR 0x87, CHR 0x91],
       sa_category = [CHR 0xE5, CHR 0x89, CHR 0xB0, CHR 0xE4, CHR 0xBD, CHR 0x99, CHR 0xE9, CHR 0x87, CHR 0x91]\<rparr>,
      \<lparr>sa_id = 11, sa_code = ''400'', sa_type = revenue,
       sa_name = [CHR 0xE5, CHR 0xA3, CHR 0xB2, CHR 0xE4, CHR 0xB8, CHR 0x8A],
       sa_category = [CHR 0xE5, CHR 0xA3, CHR 0xB2, CHR 0xE4, CHR 0xB8, CHR 0x8A, CHR 0xE9, CHR 0xAB, CHR 0x98]\<rparr>,
      \<lparr>sa_id = 12, sa_code = ''410'', sa_type = revenue,
       sa_name = [CHR 0xE9, CHR 0x9B, CHR 0x91, CHR 0xE5, CHR 0x8F, CHR 0x8E, CHR 0xE5, CHR 0x85, CHR 0xA5],
       sa_category = [CHR 0xE5, CHR 0x96, CHR 0xB6, CHR 0xE6, CHR 0xA5, CHR 0xAD, CHR 0xE5, CHR 0xA4, CHR 0x96,
                      CHR 0xE5, CHR 0x8F, CHR 0x8E, CHR 0xE7, CHR 0x9B, CHR 0x8A]\<rparr>,
      \<lparr>sa_id = 13, sa_code = ''500'', sa_type = expense,
       sa_name = [CHR 0xE4, CHR 0xBB, CHR 0x95, CHR 0xE5, CHR 0x85, CHR 0xA5],
       sa_category = [CHR 0xE5, CHR 0xA3, CHR 0xB2, CHR 0xE4, CHR 0xB8, CHR 0x8A, CHR 0xE5, CHR 0x8E, CHR 0x9F,
                      CHR 0xE4, CHR 0xBE, CHR 0xA1]\<rparr>,
      \<lparr>sa_id = 14, sa_code = ''510'', sa_type = expense,
       sa_name = [CHR 0xE7, CHR 0xB5, CHR 0xA6, CHR 0xE6, CHR 0x96, CHR 0x99],
       sa_category = [CHR 0xE8, CHR 0xB2, CHR 0xA9, CHR 0xE5, CHR 0xA3, CHR 0xB2, CHR 0xE8, CHR 0xB2, CHR 0xBB,
                      CHR 0xE5, CHR 0x8F, CHR 0x8A, CHR 0xE3, CHR 0x81, CHR 0xB3, CHR 0xE4, CHR 0xB8, CHR 0x80,
                      CHR 0xE8, CHR 0x88, CHR 0xAC, CHR 0xE7, CHR 0xAE, CHR 0xA1, CHR 0xE7, CHR 0x90, CHR 0x86,
                      CHR 0xE8, CHR 0xB2, CHR 0xBB]\<rparr>,
      \<lparr>sa_id = 15, sa_code = ''520'', sa_type = expense,
       sa_name = [CHR 0xE5, CHR 0xBA, CHR 0x83, CHR 0xE5, CHR 0x91, CHR 0x8A, CHR 0xE5, CHR 0xAE, CHR 0xA3,
                  CHR 0xE4, CHR 0xBC, CHR 0x9D, CHR 0xE8, CHR 0xB2, CHR 0xBB],
       sa_category = [CHR 0xE8, CHR 0xB2, CHR 0xA9, CHR 0xE5, CHR 0xA3, CHR 0xB2, CHR 0xE8, CHR 0xB2, CHR 0xBB,
                      CHR 0xE5, CHR 0x8F, CHR 0x8A, CHR 0xE3, CHR 0x81, CHR 0xB3, CHR 0xE4, CHR 0xB8, CHR 0x80,
                      CHR 0xE8, CHR 0x88, CHR 0xAC, CHR 0xE7, CHR 0xAE, CHR 0xA1, CHR 0xE7, CHR 0x90, CHR 0x86,
                      CHR 0xE8, CHR 0xB2, CHR 0xBB]\<rparr>,
      \<lparr>sa_id = 16, sa_code = ''530'', sa_type = expense,
       sa_name = [CHR 0xE6, CHR 0x97, CHR 0x85, CHR 0xE8, CHR 0xB2, CHR 0xBB, CHR 0xE4, CHR 0xBA, CHR 0xA4,
                  CHR 0xE9, CHR 0x80, CHR 0x9A, CHR 0xE8, CHR 0xB2, CHR 0xBB],
       sa_category = [CHR 0xE8, CHR 0xB2, CHR 0xA9, CHR 0xE5, CHR 0xA3, CHR 0xB2, CHR 0xE8, CHR 0xB2, CHR 0xBB,
                      CHR 0xE5, CHR 0x8F, CHR 0x8A, CHR 0xE3, CHR 0x81, CHR 0xB3, CHR 0xE4, CHR 0xB8, CHR 0x80,
                      CHR 0xE8, CHR 0x88, CHR 0xAC, CHR 0xE7, CHR 0xAE, CHR 0xA1, CHR 0xE7, CHR 0x90, CHR 0x86,
                      CHR 0xE8, CHR 0xB2, CHR 0xBB]\<rparr>,
      \<lparr>sa_id = 17, sa_code = ''540'', sa_type = expense,
       sa_name = [CHR 0xE6, CHR 0xB6, CHR 0x88, CHR 0xE8, CHR 0x80, CHR 0x97, CHR 0xE5, CHR 0x93, CHR 0x81,
                  CHR 0xE8, CHR 0xB2, CHR 0xBB],
       sa_category = [CHR 0xE8, CHR 0xB2, CHR 0xA9, CHR 0xE5, CHR 0xA3, CHR 0xB2, CHR 0xE8, CHR 0xB2, CHR 0xBB,
                      CHR 0xE5, CHR 0x8F, CHR 0x8A, CHR 0xE3, CHR 0x81, CHR 0xB3, CHR 0xE4, CHR 0xB8, CHR 0x80,
                      CHR 0xE8, CHR 0x88, CHR 0xAC, CHR 0xE7, CHR 0xAE, CHR 0xA1, CHR 0xE7, CHR 0x90, CHR 0x86,
                      CHR 0xE8, CHR 0xB2, CHR 0xBB]\<rparr>,
      \<lparr>sa_id = 18, sa_code = ''550'', sa_type = expense,
       sa_name = [CHR 0xE6, CHR 0xB8, CHR 0x9B, CHR 0xE4, CHR 0xBE, CHR 0xA1, CHR 0xE5, CHR 0x84, CHR 0x9F,
                  CHR 0xE5, CHR 0x8D, CHR 0xB4, CHR 0xE8, CHR 0xB2, CHR 0xBB],
       sa_category = [CHR 0xE8, CHR 0xB2, CHR 0xA9, CHR 0xE5, CHR 0xA3, CHR 0xB2, CHR 0xE8, CHR 0xB2, CHR 0xBB,
                      CHR 0xE5, CHR 0x8F, CHR 0x8A, CHR 0xE3, CHR 0x81, CHR 0xB3, CHR 0xE4, CHR 0xB8, CHR 0x80,
                      CHR 0xE8, CHR 0x88, CHR 0xAC, CHR 0xE7, CHR 0xAE, CHR 0xA1, CHR 0xE7, CHR 0x90, CHR 0x86,
                      CHR 0xE8, CHR 0xB2, CHR 0xBB]\<rparr>]"

definition standardAccounts :: "timestamp \<Rightarrow> Account list" where
  "standardAccounts now =
     map (\<lambda>acc. \<lparr>acc_id = sa_id acc, acc_code = sa_code acc, acc_name = Some (sa_name acc),
                  acc_type = sa_type acc, acc_category = Some (sa_category acc),
                  acc_parentId = None, acc_createdAt = now, acc_updatedAt = now\<rparr>)
       STANDARD_ACCOUNTS"

text \<open>\<^verbatim>\<open>new Database()\<close> as the module creates it after the standard accounts, and \<^verbatim>\<open>resetDatabase()\<close>.\<close>

definition newDatabase :: "timestamp \<Rightarrow> Database" where
  "newDatabase now =
     \<lparr>accounts = standardAccounts now, journalEntries = [],
      uuid_state = length STANDARD_ACCOUNTS\<rparr>"

definition resetDatabase :: "Database \<Rightarrow> timestamp \<Rightarrow> Database" where
  "resetDatabase db now = db\<lparr>accounts := standardAccounts now, journalEntries := []\<rparr>"

text \<open>\<^verbatim>\<open>Array.prototype.findIndex\<close>, with \<open>None\<close> for -1, and \<^verbatim>\<open>splice(index, 1)\<close>.\<close>

fun findIndex :: "('a \<Rightarrow> bool) \<Rightarrow> 'a list \<Rightarrow> nat option" where
  "findIndex P [] = None"
| "findIndex P (x # xs) = (if P x then Some 0 else map_option Suc (findIndex P xs))"

definition splice1 :: "nat \<Rightarrow> 'a list \<Rightarrow> 'a list" where
  "splice1 i xs = take i xs @ drop (Suc i) xs"

subsection \<open>Accounts\<close>

definition getAccountById :: "Database \<Rightarrow> uuid \<Rightarrow> Account option" where
  "getAccountById db i = find (\<lambda>acc. acc_id acc = i) (accounts db)"

definition getAccountByCode :: "Database \<Rightarrow> string \<Rightarrow> Account option" where
  "getAccountByCode db c = find (\<lambda>acc. acc_code acc = c) (accounts db)"

record AccountInput =
  in_code :: string
  in_name :: "string option"
  in_type :: AccountType
  in_category :: "string option"
  in_parentId :: "uuid option"

definition createAccount :: "Database \<Rightarrow> timestamp \<Rightarrow> AccountInput \<Rightarrow> Account \<times> Database" where
  "createAccount db now account =
     (let (i, g) = uuidv4 (uuid_state db);
          newAccount = \<lparr>acc_id = i, acc_code = in_code account, acc_name = in_name account,
                        acc_type = in_type account, acc_category = in_category account,
                        acc_parentId = in_parentId account,
                        acc_createdAt = now, acc_updatedAt = now\<rparr>
      in (newAccount, db\<lparr>accounts := accounts db @ [newAccount], uuid_state := g\<rparr>))"

text \<open>
  The \<^verbatim>\<open>updates\<close> object of \<^verbatim>\<open>updateAccount\<close>: each key is absent (\<open>None\<close>) or present.
  A present \<^verbatim>\<open>name\<close> or \<^verbatim>\<open>category\<close> may hold \<^verbatim>\<open>undefined\<close> (\<open>Some None\<close>), which
  the object spread copies like any other value.
\<close>

record AccountUpdates =
  upd_code :: "string option"
  upd_name :: "string option option"
  upd_type :: "AccountType option"
  upd_category :: "string option option"
  upd_parentId :: "uuid option option"
  upd_updatedAt :: "timestamp option"

definition spread :: "'a \<Rightarrow> 'a option \<Rightarrow> 'a" where
  "spread old new = (case new of None \<Rightarrow> old | Some v \<Rightarrow> v)"

definition updateAccount ::
  "Database \<Rightarrow> timestamp \<Rightarrow> uuid \<Rightarrow> AccountUpdates \<Rightarrow> Account option \<times> Database" where
  "updateAccount db now i updates =
     (case findIndex (\<lambda>acc. acc_id acc = i) (accounts db) of
        None \<Rightarrow> (None, db)
      | Some index \<Rightarrow>
          (let old = accounts db ! index;
               new = \<lparr>acc_id = acc_id old,
                      acc_code = spread (acc_code old) (upd_code updates),
                      acc_name = spread (acc_name old) (upd_name updates),
                      acc_type = spread (acc_type old) (upd_type updates),
                      acc_category = spread (acc_category old) (upd_category updates),
                      acc_parentId = spread (acc_parentId old) (upd_parentId updates),
                      acc_createdAt = acc_createdAt old,
                      acc_updatedAt = now\<rparr>
           in (Some new, db\<lparr>accounts := (accounts db)[index := new]\<rparr>)))"

definition isUsed :: "Database \<Rightarrow> uuid \<Rightarrow> bool" where
  "isUsed db i =
     list_ex (\<lambda>entry. list_ex (\<lambda>line. line_accountId line = i) (entry_lines entry))
       (journalEntries db)"

definition deleteAccount :: "Database \<Rightarrow> uuid \<Rightarrow> bool \<times> Database" where
  "deleteAccount db i =
     (if isUsed db i then (False, db)
      else (case findIndex (\<lambda>acc. acc_id acc = i) (accounts db) of
              None \<Rightarrow> (False, db)
            | Some index \<Rightarrow> (True, db\<lparr>accounts := splice1 index (accounts db)\<rparr>)))"

subsection \<open>Journal entries\<close>

definition getJournalEntryById :: "Database \<Rightarrow> uuid \<Rightarrow> JournalEntry option" where
  "getJournalEntryById db i = find (\<lambda>entry. entry_id entry = i) (journalEntries db)"

record EntryInput =
  ei_date :: string
  ei_description :: string
  ei_isClosed :: "bool option"

text \<open>A line as \<^verbatim>\<open>createJournalEntry\<close> receives it; either amount may be missing.\<close>

record LineInput =
  li_accountId :: uuid
  li_debitAmount :: "number option"
  li_creditAmount :: "number option"

text \<open>
  The first \<^verbatim>\<open>lines.map\<close>: each line is copied as it is and draws two identifiers, its
  own and a \<^verbatim>\<open>journalEntryId\<close> that the second pass overwrites.
\<close>

fun assignLineIds :: "nat \<Rightarrow> LineInput list \<Rightarrow> JournalLine list \<times> nat" where
  "assignLineIds g [] = ([], g)"
| "assignLineIds g (line # rest) =
     (let (i, g1) = uuidv4 g;
          (j, g2) = uuidv4 g1;
          (ls, g3) = assignLineIds g2 rest
      in (\<lparr>line_id = i, line_journalEntryId = j, line_accountId = li_accountId line,
           line_accountName = None, line_debitAmount = li_debitAmount line,
           line_creditAmount = li_creditAmount line\<rparr> # ls, g3))"

definition accountNameOf :: "Database \<Rightarrow> uuid \<Rightarrow> string option" where
  "accountNameOf db i = (case getAccountById db i of None \<Rightarrow> None | Some acc \<Rightarrow> acc_name acc)"

definition createJournalEntry ::
  "Database \<Rightarrow> timestamp \<Rightarrow> EntryInput \<Rightarrow> LineInput list \<Rightarrow> JournalEntry \<times> Database" where
  "createJournalEntry db now entry lines =
     (let (eid, g) = uuidv4 (uuid_state db);
          (ls0, g') = assignLineIds g lines;
          ls1 = map (\<lambda>line. line\<lparr>line_journalEntryId := eid\<rparr>) ls0;
          ls2 = map (\<lambda>line. line\<lparr>line_accountName := accountNameOf db (line_accountId line)\<rparr>) ls1;
          newEntry = \<lparr>entry_id = eid, entry_date = Some (ei_date entry),
                      entry_description = Some (ei_description entry), entry_lines = ls2,
                      entry_createdAt = now, entry_updatedAt = now,
                      entry_isClosed = ei_isClosed entry\<rparr>
      in (newEntry, db\<lparr>journalEntries := journalEntries db @ [newEntry], uuid_state := g'\<rparr>))"

record EntryUpdates =
  eu_date :: "string option option"
  eu_description :: "string option option"
  eu_updatedAt :: "timestamp option"
  eu_isClosed :: "bool option option"

definition updateJournalEntry ::
  "Database \<Rightarrow> timestamp \<Rightarrow> uuid \<Rightarrow> EntryUpdates \<Rightarrow> JournalEntry option \<times> Database" where
  "updateJournalEntry db now i updates =
     (case findIndex (\<lambda>entry. entry_id entry = i) (journalEntries db) of
        None \<Rightarrow> (None, db)
      | Some index \<Rightarrow>
          (let old = journalEntries db ! index;
               new = \<lparr>entry_id = entry_id old,
                      entry_date = spread (entry_date old) (eu_date updates),
                      entry_description = spread (entry_description old) (eu_description updates),
                      entry_lines = entry_lines old,
                      entry_createdAt = entry_createdAt old,
                      entry_updatedAt = now,
                      entry_isClosed = spread (entry_isClosed old) (eu_isClosed updates)\<rparr>
           in (Some new, db\<lparr>journalEntries := (journalEntries db)[index := new]\<rparr>)))"

definition deleteJournalEntry :: "Database \<Rightarrow> uuid \<Rightarrow> bool \<times> Database" where
  "deleteJournalEntry db i =
     (case findIndex (\<lambda>entry. entry_id entry = i) (journalEntries db) of
        None \<Rightarrow> (False, db)
      | Some index \<Rightarrow> (True, db\<lparr>journalEntries := splice1 index (journalEntries db)\<rparr>))"

subsection \<open>Financial calculations\<close>

text \<open>
  \<^verbatim>\<open>entry.date <= asOfDate\<close>: strings compare lexicographically; an undefined date
  compares false. \<^verbatim>\<open>if (asOfDate)\<close> skips the filter for an omitted or empty date.
\<close>

fun date_le :: "string option \<Rightarrow> string \<Rightarrow> bool" where
  "date_le None d = False"
| "date_le (Some s) d = (s \<le> d)"

definition entriesAsOf :: "Database \<Rightarrow> string option \<Rightarrow> JournalEntry list" where
  "entriesAsOf db asOfDate =
     (case asOfDate of
        None \<Rightarrow> journalEntries db
      | Some d \<Rightarrow>
          if d = [] then journalEntries db
          else filter (\<lambda>entry. date_le (entry_date entry) d) (journalEntries db))"

definition debitNormal :: "AccountType \<Rightarrow> bool" where
  "debitNormal t = (t = asset \<or> t = expense)"

text \<open>\<^verbatim>\<open>balance += line.debitAmount - line.creditAmount\<close>, or the other way round.\<close>

definition balanceLine :: "Account \<Rightarrow> uuid \<Rightarrow> JournalLine \<Rightarrow> number \<Rightarrow> number" where
  "balanceLine account accountId line balance =
     (if line_accountId line = accountId then
        (if debitNormal (acc_type account)
         then js_add balance
                (js_sub (toNumber (line_debitAmount line)) (toNumber (line_creditAmount line)))
         else js_add balance
                (js_sub (toNumber (line_creditAmount line)) (toNumber (line_debitAmount line))))
      else balance)"

definition getAccountBalance :: "Database \<Rightarrow> uuid \<Rightarrow> string option \<Rightarrow> number" where
  "getAccountBalance db accountId asOfDate =
     (case getAccountById db accountId of
        None \<Rightarrow> zero
      | Some account \<Rightarrow>
          fold (\<lambda>entry. fold (balanceLine account accountId) (entry_lines entry))
            (entriesAsOf db asOfDate) zero)"

type_synonym amounts = "uuid \<rightharpoonup> number"

definition initAmounts :: "Account list \<Rightarrow> amounts" where
  "initAmounts accs = fold (\<lambda>account m. m(acc_id account \<mapsto> zero)) accs Map.empty"

definition tbLine :: "JournalLine \<Rightarrow> amounts \<times> amounts \<Rightarrow> amounts \<times> amounts" where
  "tbLine line = (\<lambda>(debitAmounts, creditAmounts).
     (let currentDebit = or0 (debitAmounts (line_accountId line));
          currentCredit = or0 (creditAmounts (line_accountId line))
      in (debitAmounts(line_accountId line \<mapsto>
            js_add currentDebit (toNumber (line_debitAmount line))),
          creditAmounts(line_accountId line \<mapsto>
            js_add currentCredit (toNumber (line_creditAmount line))))))"

definition tbTotals :: "amounts \<times> amounts \<Rightarrow> Account \<Rightarrow> number \<times> number \<Rightarrow> number \<times> number" where
  "tbTotals maps account = (\<lambda>(td, tc).
     (js_add td (or0 (fst maps (acc_id account))), js_add tc (or0 (snd maps (acc_id account)))))"

definition getTrialBalance :: "Database \<Rightarrow> string option \<Rightarrow> TrialBalance" where
  "getTrialBalance db asOfDate =
     (let entries = entriesAsOf db asOfDate;
          init = (initAmounts (accounts db), initAmounts (accounts db));
          maps = fold (\<lambda>entry. fold tbLine (entry_lines entry)) entries init;
          (td, tc) = fold (tbTotals maps) (accounts db) (zero, zero)
      in \<lparr>totalDebit = td, totalCredit = tc\<rparr>)"

definition bsLine :: "JournalLine \<Rightarrow> amounts \<Rightarrow> amounts" where
  "bsLine line balances =
     (let current = or0 (balances (line_accountId line))
      in balances(line_accountId line \<mapsto>
           js_sub (js_add current (toNumber (line_debitAmount line)))
             (toNumber (line_creditAmount line))))"

fun bsAccount :: "amounts \<Rightarrow> Account \<Rightarrow> number \<times> number \<times> number \<Rightarrow> number \<times> number \<times> number" where
  "bsAccount balances account (a, l, e) =
     (let balance = or0 (balances (acc_id account))
      in if acc_type account = asset then (js_add a balance, l, e)
         else if acc_type account = liability then (a, js_sub l balance, e)
         else if acc_type account = equity then (a, l, js_sub e balance)
         else if acc_type account = revenue then (a, l, js_sub e balance)
         else if acc_type account = expense then (a, l, js_add e balance)
         else (a, l, e))"

definition getBalanceSheet :: "Database \<Rightarrow> string option \<Rightarrow> BalanceSheet" where
  "getBalanceSheet db asOfDate =
     (let entries = entriesAsOf db asOfDate;
          balances = fold (\<lambda>entry. fold bsLine (entry_lines entry)) entries
                       (initAmounts (accounts db));
          (a, l, e) = fold (bsAccount balances) (accounts db) (zero, zero, zero)
      in \<lparr>assets_total = a, liabilities_total = l, equity_total = e\<rparr>)"

section \<open>REST handlers (src/api/routes.ts)\<close>

text \<open>
  A request body is parsed JSON. A property that a handler reads as a string is a
  \<open>string option\<close>, an amount is a \<open>number option\<close>, \<open>None\<close> being a missing property;
  the elements of \<^verbatim>\<open>lines\<close> are objects. Properties of any other JSON type are outside
  the model.
\<close>

datatype error =
    MissingRequiredFields
  | AccountCodeExists
  | AtLeastTwoLines
  | InvalidDateFormat
  | AccountNotFoundId uuid
  | AccountNotFoundCode string
  | DebitsCreditsMustBeEqual
  | DebitsCreditsMustBeEqualOf number number
  | EitherDebitOrCreditNotBoth
  | AccountNotFound
  | JournalEntryNotFound
  | CannotDeleteAccount

text \<open>
  \<^verbatim>\<open>res.status(n).json({error: ...})\<close> is \<open>Json n (Inl ...)\<close>,
  \<^verbatim>\<open>res.status(n).json({data: ...})\<close> is \<open>Json n (Inr ...)\<close>, and
  \<^verbatim>\<open>res.status(n).send()\<close> is \<open>Send n\<close>.
\<close>

datatype 'a response = Json nat "error + 'a" | Send nat

record AccountPostBody =
  ab_code :: "string option"
  ab_name :: "string option"
  ab_type :: "string option"
  ab_category :: "string option"
  ab_parentId :: "uuid option"

definition post_accounts ::
  "Database \<Rightarrow> timestamp \<Rightarrow> AccountPostBody \<Rightarrow> Account response \<times> Database" where
  "post_accounts db now body =
     (case (ab_code body, ab_name body, ab_type body, ab_category body) of
        (Some code, Some name, Some type', Some category) \<Rightarrow>
          if code = [] \<or> name = [] \<or> type' = [] \<or> category = []
          then (Json 400 (Inl MissingRequiredFields), db)
          else (case getAccountByCode db code of
                  Some existingAccount \<Rightarrow> (Json 400 (Inl AccountCodeExists), db)
                | None \<Rightarrow>
                    (let (account, db') = createAccount db now
                           \<lparr>in_code = code, in_name = Some name, in_type = type',
                            in_category = Some category, in_parentId = ab_parentId body\<rparr>
                     in (Json 201 (Inr account), db')))
      | _ \<Rightarrow> (Json 400 (Inl MissingRequiredFields), db))"

text \<open>
  The body of \<^verbatim>\<open>PUT /accounts/:id\<close>. The handler destructures \<^verbatim>\<open>name\<close> and
  \<^verbatim>\<open>category\<close> only; \<^verbatim>\<open>code\<close> and \<^verbatim>\<open>type\<close> stand for what else a client may send.
\<close>

record AccountPutBody =
  pb_name :: "string option"
  pb_category :: "string option"
  pb_code :: "string option"
  pb_type :: "string option"

definition put_accounts ::
  "Database \<Rightarrow> timestamp \<Rightarrow> uuid \<Rightarrow> AccountPutBody \<Rightarrow> Account response \<times> Database" where
  "put_accounts db now i body =
     (let name = pb_name body;
          category = pb_category body;
          (account, db') = updateAccount db now i
             \<lparr>upd_code = None, upd_name = Some name, upd_type = None,
              upd_category = Some category, upd_parentId = None, upd_updatedAt = None\<rparr>
      in (case account of
            None \<Rightarrow> (Json 404 (Inl AccountNotFound), db')
          | Some acc \<Rightarrow> (Json 200 (Inr acc), db')))"

definition delete_accounts :: "Database \<Rightarrow> uuid \<Rightarrow> Account response \<times> Database" where
  "delete_accounts db i =
     (let (deleted, db') = deleteAccount db i
      in if deleted then (Send 204, db') else (Json 400 (Inl CannotDeleteAccount), db'))"

text \<open>
  The body of \<^verbatim>\<open>POST /journal-entries\<close>. \<open>None\<close> for \<^verbatim>\<open>lines\<close> is a missing value or one
  that is not an array. The checks read each amount through \<^verbatim>\<open>|| 0\<close>; the lines handed to
  \<^verbatim>\<open>db.createJournalEntry\<close> are the lines of the body as they came.
\<close>

record JournalEntryBody =
  jb_date :: "string option"
  jb_description :: "string option"
  jb_lines :: "LineInput list option"

definition sumDebit :: "LineInput list \<Rightarrow> number" where
  "sumDebit lines = foldl (\<lambda>sum line. js_add sum (or0 (li_debitAmount line))) zero lines"

definition sumCredit :: "LineInput list \<Rightarrow> number" where
  "sumCredit lines = foldl (\<lambda>sum line. js_add sum (or0 (li_creditAmount line))) zero lines"

definition bothSides :: "LineInput \<Rightarrow> bool" where
  "bothSides line =
     (js_gt (or0 (li_debitAmount line)) zero \<and> js_gt (or0 (li_creditAmount line)) zero)"

definition post_journal_entries ::
  "Database \<Rightarrow> timestamp \<Rightarrow> JournalEntryBody \<Rightarrow> JournalEntry response \<times> Database" where
  "post_journal_entries db now body =
     (case (jb_date body, jb_description body, jb_lines body) of
        (Some date, Some description, Some lines) \<Rightarrow>
          if date = [] \<or> description = [] then (Json 400 (Inl MissingRequiredFields), db)
          else if length lines < 2 then (Json 400 (Inl AtLeastTwoLines), db)
          else (case find (\<lambda>line. getAccountById db (li_accountId line) = None) lines of
                  Some line \<Rightarrow> (Json 400 (Inl (AccountNotFoundId (li_accountId line))), db)
                | None \<Rightarrow>
                    if js_gt (js_abs (js_sub (sumDebit lines) (sumCredit lines))) lit_0_01
                    then (Json 400 (Inl DebitsCreditsMustBeEqual), db)
                    else if list_ex bothSides lines
                    then (Json 400 (Inl EitherDebitOrCreditNotBoth), db)
                    else (let (entry, db') = createJournalEntry db now
                                \<lparr>ei_date = date, ei_description = description,
                                 ei_isClosed = None\<rparr> lines
                          in (Json 201 (Inr entry), db')))
      | _ \<Rightarrow> (Json 400 (Inl MissingRequiredFields), db))"

record JournalEntryPutBody =
  ub_date :: "string option"
  ub_description :: "string option"

definition put_journal_entries ::
  "Database \<Rightarrow> timestamp \<Rightarrow> uuid \<Rightarrow> JournalEntryPutBody \<Rightarrow> JournalEntry response \<times> Database" where
  "put_journal_entries db now i body =
     (let date = ub_date body;
          description = ub_description body;
          (entry, db') = updateJournalEntry db now i
             \<lparr>eu_date = Some date, eu_description = Some description,
              eu_updatedAt = None, eu_isClosed = None\<rparr>
      in (case entry of
            None \<Rightarrow> (Json 404 (Inl JournalEntryNotFound), db')
          | Some e \<Rightarrow> (Json 200 (Inr e), db')))"

definition delete_journal_entries :: "Database \<Rightarrow> uuid \<Rightarrow> JournalEntry response \<times> Database" where
  "delete_journal_entries db i =
     (let (deleted, db') = deleteJournalEntry db i
      in if deleted then (Send 204, db') else (Json 404 (Inl JournalEntryNotFound), db'))"

section \<open>The tool \<^verbatim>\<open>create_journal_entry\<close> of the MCP server\<close>

record McpLine =
  ml_accountCode :: string
  ml_debitAmount :: "number option"
  ml_creditAmount :: "number option"

record McpParams =
  mp_date :: "string option"
  mp_description :: "string option"
  mp_lines :: "McpLine list option"

text \<open>The regular expression \<^verbatim>\<open>/^\d{4}-\d{2}-\d{2}$/\<close>.\<close>

definition isDigit :: "char \<Rightarrow> bool" where
  "isDigit c = (CHR ''0'' \<le> c \<and> c \<le> CHR ''9'')"

definition dateRegex :: "string \<Rightarrow> bool" where
  "dateRegex s =
     (length s = 10 \<and> list_all isDigit (take 4 s) \<and> s ! 4 = CHR ''-''
      \<and> list_all isDigit (take 2 (drop 5 s)) \<and> s ! 7 = CHR ''-''
      \<and> list_all isDigit (drop 8 s))"

text \<open>
  The loop that looks every line's account up by its code: it returns at the first code
  that no account has, and otherwise collects the lines with \<^verbatim>\<open>|| 0\<close> amounts, so that
  both amounts of a collected line are numbers.
\<close>

fun resolveLines :: "Database \<Rightarrow> McpLine list \<Rightarrow> string + LineInput list" where
  "resolveLines db [] = Inr []"
| "resolveLines db (line # rest) =
     (case getAccountByCode db (ml_accountCode line) of
        None \<Rightarrow> Inl (ml_accountCode line)
      | Some account \<Rightarrow>
          (case resolveLines db rest of
             Inl c \<Rightarrow> Inl c
           | Inr entryLines \<Rightarrow>
               Inr (\<lparr>li_accountId = acc_id account,
                     li_debitAmount = Some (or0 (ml_debitAmount line)),
                     li_creditAmount = Some (or0 (ml_creditAmount line))\<rparr> # entryLines)))"

definition totalOf :: "(LineInput \<Rightarrow> number option) \<Rightarrow> LineInput list \<Rightarrow> number" where
  "totalOf amount entryLines =
     foldl (\<lambda>sum line. js_add sum (toNumber (amount line))) zero entryLines"

definition bothPositive :: "LineInput \<Rightarrow> bool" where
  "bothPositive line =
     (js_gt (toNumber (li_debitAmount line)) zero \<and> js_gt (toNumber (li_creditAmount line)) zero)"

record McpResultLine =
  rl_accountCode :: "string option"
  rl_accountName :: "string option"
  rl_debitAmount :: "number option"
  rl_creditAmount :: "number option"

record McpJournalEntry =
  rj_id :: uuid
  rj_date :: "string option"
  rj_description :: "string option"
  rj_lines :: "McpResultLine list"

definition mcpResultLine :: "Database \<Rightarrow> JournalLine \<Rightarrow> McpResultLine" where
  "mcpResultLine db line =
     \<lparr>rl_accountCode = map_option acc_code (getAccountById db (line_accountId line)),
      rl_accountName = line_accountName line,
      rl_debitAmount = line_debitAmount line,
      rl_creditAmount = line_creditAmount line\<rparr>"

text \<open>\<open>Inl e\<close> is \<^verbatim>\<open>{success: false, error: e}\<close>, \<open>Inr j\<close> is \<^verbatim>\<open>{success: true, journalEntry: j}\<close>.\<close>

definition mcp_createJournalEntry ::
  "Database \<Rightarrow> timestamp \<Rightarrow> McpParams \<Rightarrow> (error + McpJournalEntry) \<times> Database" where
  "mcp_createJournalEntry db now params =
     (case (mp_date params, mp_description params, mp_lines params) of
        (Some date, Some description, Some lines) \<Rightarrow>
          if date = [] \<or> description = [] then (Inl MissingRequiredFields, db)
          else if length lines < 2 then (Inl AtLeastTwoLines, db)
          else if dateRegex date = False then (Inl InvalidDateFormat, db)
          else (case resolveLines db lines of
                  Inl c \<Rightarrow> (Inl (AccountNotFoundCode c), db)
                | Inr entryLines \<Rightarrow>
                    (let totalDebit = totalOf li_debitAmount entryLines;
                         totalCredit = totalOf li_creditAmount entryLines
                     in if js_gt (js_abs (js_sub totalDebit totalCredit)) lit_0_01
                        then (Inl (DebitsCreditsMustBeEqualOf totalDebit totalCredit), db)
                        else if list_ex bothPositive entryLines
                        then (Inl EitherDebitOrCreditNotBoth, db)
                        else (let (entry, db') = createJournalEntry db now
                                    \<lparr>ei_date = date, ei_description = description,
                                     ei_isClosed = None\<rparr> entryLines
                              in (Inr \<lparr>rj_id = entry_id entry, rj_date = entry_date entry,
                                       rj_description = entry_description entry,
                                       rj_lines = map (mcpResultLine db') (entry_lines entry)\<rparr>,
                                  db'))))
      | _ \<Rightarrow> (Inl MissingRequiredFields, db))"

section \<open>The operations of the program\<close>

text \<open>
  The requests that can change the store: the six writing routes of the REST interface,
  the tool \<^verbatim>\<open>create_journal_entry\<close>, and the reset (\<^verbatim>\<open>POST /test/reset\<close>, and the method
  \<^verbatim>\<open>test/reset\<close> of the MCP server). All other requests (lists, reports, balances) only
  read. A run applies a sequence of operations from left to right.
\<close>

datatype operation =
    PostAccount timestamp AccountPostBody
  | PutAccount timestamp uuid AccountPutBody
  | DeleteAccount uuid
  | PostJournalEntry timestamp JournalEntryBody
  | PutJournalEntry timestamp uuid JournalEntryPutBody
  | DeleteJournalEntry uuid
  | CreateJournalEntryTool timestamp McpParams
  | TestReset timestamp

fun step :: "Database \<Rightarrow> operation \<Rightarrow> Database" where
  "step db (PostAccount now body) = snd (post_accounts db now body)"
| "step db (PutAccount now i body) = snd (put_accounts db now i body)"
| "step db (DeleteAccount i) = snd (delete_accounts db i)"
| "step db (PostJournalEntry now body) = snd (post_journal_entries db now body)"
| "step db (PutJournalEntry now i body) = snd (put_journal_entries db now i body)"
| "step db (DeleteJournalEntry i) = snd (delete_journal_entries db i)"
| "step db (CreateJournalEntryTool now params) = snd (mcp_createJournalEntry db now params)"
| "step db (TestReset now) = resetDatabase db now"

definition run :: "operation list \<Rightarrow> Database \<Rightarrow> Database" where
  "run ops db = foldl step db ops"

section \<open>Example states and requests\<close>

text \<open>
  A small chart of accounts with codes of the standard chart (cash, sales, purchases) and
  no journal entries yet; the identifier generator has handed out 0, 1 and 2.
\<close>

definition seedAccount :: "uuid \<Rightarrow> string \<Rightarrow> string \<Rightarrow> AccountType \<Rightarrow> string \<Rightarrow> Account" where
  "seedAccount i c n t cat =
     \<lparr>acc_id = i, acc_code = c, acc_name = Some n, acc_type = t, acc_category = Some cat,
      acc_parentId = None, acc_createdAt = 0, acc_updatedAt = 0\<rparr>"

definition exampleDb :: Database where
  "exampleDb =
     \<lparr>accounts = [seedAccount 0 ''100'' ''Cash'' asset ''Current assets'',
                  seedAccount 1 ''400'' ''Sales'' revenue ''Sales'',
                  seedAccount 2 ''500'' ''Purchases'' expense ''Cost of sales''],
      journalEntries = [], uuid_state = 3\<rparr>"

text \<open>A line that carries both amounts, as finite numbers, for either interface.\<close>

definition restLine :: "uuid \<Rightarrow> rat \<Rightarrow> rat \<Rightarrow> LineInput" where
  "restLine a d c =
     \<lparr>li_accountId = a, li_debitAmount = Some (Finite d), li_creditAmount = Some (Finite c)\<rparr>"

definition restBody :: "LineInput list \<Rightarrow> JournalEntryBody" where
  "restBody ls =
     \<lparr>jb_date = Some ''2024-01-15'', jb_description = Some ''Entry'', jb_lines = Some ls\<rparr>"

definition mcpLine :: "string \<Rightarrow> rat \<Rightarrow> rat \<Rightarrow> McpLine" where
  "mcpLine a d c =
     \<lparr>ml_accountCode = a, ml_debitAmount = Some (Finite d), ml_creditAmount = Some (Finite c)\<rparr>"

definition mcpParams :: "McpLine list \<Rightarrow> McpParams" where
  "mcpParams ls =
     \<lparr>mp_date = Some ''2024-01-15'', mp_description = Some ''Entry'', mp_lines = Some ls\<rparr>"

text \<open>
  The entry that a sale of 10000 for cash creates in \<open>exampleDb\<close> at time 5, and the store
  after \<^verbatim>\<open>POST /journal-entries\<close> created it.
\<close>

definition saleEntry :: JournalEntry where
  "saleEntry =
     \<lparr>entry_id = 3, entry_date = Some ''2024-01-15'', entry_description = Some ''Entry'',
      entry_lines =
        [\<lparr>line_id = 4, line_journalEntryId = 3, line_accountId = 0,
          line_accountName = Some ''Cash'', line_debitAmount = Some (Finite 10000),
          line_creditAmount = Some (Finite 0)\<rparr>,
         \<lparr>line_id = 6, line_journalEntryId = 3, line_accountId = 1,
          line_accountName = Some ''Sales'', line_debitAmount = Some (Finite 0),
          line_creditAmount = Some (Finite 10000)\<rparr>],
      entry_createdAt = 5, entry_updatedAt = 5, entry_isClosed = None\<rparr>"

definition usedDb :: Database where
  "usedDb = snd (post_journal_entries exampleDb 5
                   (restBody [restLine 0 10000 0, restLine 1 0 10000]))"

text \<open>
  The store after a purchase of 100 paid in cash (debit purchases, credit cash); the
  store after an entry whose credit exceeds its debit by 1/128, which is within the
  tolerance of the balance check; and the store after an entry that debits cash with
  \<open>2 ^ 53\<close> and with 1 and credits sales with \<open>2 ^ 53\<close>. All amounts are doubles.
\<close>

definition purchaseDb :: Database where
  "purchaseDb = snd (post_journal_entries exampleDb 5
                       (restBody [restLine 2 100 0, restLine 0 0 100]))"

definition toleranceDb :: Database where
  "toleranceDb = snd (post_journal_entries exampleDb 5
                        (restBody [restLine 0 1 0, restLine 1 0 (129 / 128)]))"

definition roundingDb :: Database where
  "roundingDb = snd (post_journal_entries exampleDb 5
                       (restBody [restLine 0 9007199254740992 0, restLine 0 1 0,
                                  restLine 1 0 9007199254740992]))"

text \<open>
  The store after an entry of large amounts that passes the balance check because its
  debit sum rounds to its credit sum; and the store after a balanced entry followed by an
  entry whose lines each carry one amount only.
\<close>

definition largeDb :: Database where
  "largeDb = snd (post_journal_entries exampleDb 5
                    (restBody [restLine 0 1 0, restLine 2 10000000000000000 0,
                               restLine 1 1 0, restLine 0 0 10000000000000000]))"

definition incompleteDb :: Database where
  "incompleteDb =
     snd (post_journal_entries
            (snd (post_journal_entries exampleDb 5
                    (restBody [restLine 0 100 0, restLine 1 0 100])))
            6 (restBody [\<lparr>li_accountId = 1, li_debitAmount = Some (Finite 50),
                           li_creditAmount = None\<rparr>,
                         \<lparr>li_accountId = 2, li_debitAmount = None,
                           li_creditAmount = Some (Finite 50)\<rparr>]))"

text \<open>
  A run of the program from its initial store: a sale over REST, a purchase by the tool,
  a new date for the first entry, and the deletion of an account that no line uses.
\<close>

definition exampleOps :: "operation list" where
  "exampleOps =
     [PostJournalEntry 5 (restBody [restLine 0 10000 0, restLine 11 0 10000]),
      CreateJournalEntryTool 6 (mcpParams [mcpLine ''500'' 250 0, mcpLine ''100'' 0 250]),
      PutJournalEntry 7 19 \<lparr>ub_date = Some ''2024-02-01'', ub_description = None\<rparr>,
      DeleteAccount 1]"

section \<open>Exact amounts\<close>

text \<open>
  An amount is whole when it is a finite number without a fractional part. The value of
  an amount is the rational it denotes, 0 when it is missing or not finite. The sums of
  an entry, the magnitude of a line and the magnitude of the store are sums of values in
  exact arithmetic.
\<close>

fun wholeAmount :: "number option \<Rightarrow> bool" where
  "wholeAmount (Some (Finite r)) = (of_int \<lfloor>r\<rfloor> = r)"
| "wholeAmount x = False"

fun amountValue :: "number option \<Rightarrow> rat" where
  "amountValue (Some (Finite r)) = r"
| "amountValue x = 0"

definition entryDebit :: "JournalEntry \<Rightarrow> rat" where
  "entryDebit entry = sum_list (map (\<lambda>line. amountValue (line_debitAmount line)) (entry_lines entry))"

definition entryCredit :: "JournalEntry \<Rightarrow> rat" where
  "entryCredit entry = sum_list (map (\<lambda>line. amountValue (line_creditAmount line)) (entry_lines entry))"

definition wholeStored :: "JournalLine \<Rightarrow> bool" where
  "wholeStored line = (wholeAmount (line_debitAmount line) \<and> wholeAmount (line_creditAmount line))"

definition lineMagnitude :: "JournalLine \<Rightarrow> rat" where
  "lineMagnitude line =
     \<bar>amountValue (line_debitAmount line)\<bar> + \<bar>amountValue (line_creditAmount line)\<bar>"

definition storedLines :: "Database \<Rightarrow> JournalLine list" where
  "storedLines db = concat (map entry_lines (journalEntries db))"

definition wholeStore :: "Database \<Rightarrow> bool" where
  "wholeStore db = list_all wholeStored (storedLines db)"

definition storeMagnitude :: "Database \<Rightarrow> rat" where
  "storeMagnitude db = sum_list (map lineMagnitude (storedLines db))"

text \<open>
  The same for what an operation submits. A line of \<^verbatim>\<open>POST /journal-entries\<close> is stored
  as it comes and is whole when both amounts are present and whole; a line of the tool is
  stored after \<^verbatim>\<open>|| 0\<close> and is whole when that makes both amounts whole.
\<close>

definition wholeLine :: "LineInput \<Rightarrow> bool" where
  "wholeLine line = (wholeAmount (li_debitAmount line) \<and> wholeAmount (li_creditAmount line))"

definition wholeToolLine :: "McpLine \<Rightarrow> bool" where
  "wholeToolLine line =
     (wholeAmount (Some (or0 (ml_debitAmount line)))
      \<and> wholeAmount (Some (or0 (ml_creditAmount line))))"

definition inputMagnitude :: "LineInput \<Rightarrow> rat" where
  "inputMagnitude line =
     \<bar>amountValue (li_debitAmount line)\<bar> + \<bar>amountValue (li_creditAmount line)\<bar>"

definition toolMagnitude :: "McpLine \<Rightarrow> rat" where
  "toolMagnitude line =
     \<bar>amountValue (ml_debitAmount line)\<bar> + \<bar>amountValue (ml_creditAmount line)\<bar>"

fun wholeAmounts :: "operation \<Rightarrow> bool" where
  "wholeAmounts (PostJournalEntry now body) =
     (case jb_lines body of None \<Rightarrow> True | Some lines \<Rightarrow> list_all wholeLine lines)"
| "wholeAmounts (CreateJournalEntryTool now params) =
     (case mp_lines params of None \<Rightarrow> True | Some lines \<Rightarrow> list_all wholeToolLine lines)"
| "wholeAmounts operation = True"

fun submitted :: "operation \<Rightarrow> rat" where
  "submitted (PostJournalEntry now body) =
     (case jb_lines body of None \<Rightarrow> 0 | Some lines \<Rightarrow> sum_list (map inputMagnitude lines))"
| "submitted (CreateJournalEntryTool now params) =
     (case mp_lines params of None \<Rightarrow> 0 | Some lines \<Rightarrow> sum_list (map toolMagnitude lines))"
| "submitted operation = 0"

text \<open>
  The invariant of the store that every operation keeps: account ids are distinct and
  were handed out by the generator, which is past the ids of the standard chart; every
  stored line refers to an account of the chart; and every stored entry has whole amounts
  and exactly equal sums.
\<close>

definition consistent :: "Database \<Rightarrow> bool" where
  "consistent db =
     (distinct (map acc_id (accounts db))
      \<and> list_all (\<lambda>account. acc_id account < uuid_state db) (accounts db)
      \<and> length STANDARD_ACCOUNTS \<le> uuid_state db
      \<and> list_all (\<lambda>line. line_accountId line \<in> acc_id ` set (accounts db)) (storedLines db)
      \<and> wholeStore db
      \<and> list_all (\<lambda>entry. entryDebit entry = entryCredit entry) (journalEntries db))"

section \<open>The account balance as the specification words it\<close>

text \<open>
  The included entries are those with \<open>date \<le> asOfDate\<close>, or all entries when the date
  is omitted. The balance of an account is the sum, over the lines of the included
  entries that refer to the account, of debit minus credit when the account's type is
  asset or expense, and of credit minus debit otherwise. \<open>accountBalance_spec\<close> takes
  the sum in double arithmetic, from 0 and from the first line to the last;
  \<open>accountBalance_exact\<close> takes it in exact arithmetic.
\<close>

definition includedEntries :: "Database \<Rightarrow> string option \<Rightarrow> JournalEntry list" where
  "includedEntries db asOfDate =
     (case asOfDate of
        None \<Rightarrow> journalEntries db
      | Some d \<Rightarrow> filter (\<lambda>entry. date_le (entry_date entry) d) (journalEntries db))"

definition referringLines :: "Database \<Rightarrow> Account \<Rightarrow> string option \<Rightarrow> JournalLine list" where
  "referringLines db account asOfDate =
     filter (\<lambda>line. line_accountId line = acc_id account)
       (concat (map entry_lines (includedEntries db asOfDate)))"

definition signedAmount :: "AccountType \<Rightarrow> JournalLine \<Rightarrow> number" where
  "signedAmount t line =
     (if t = asset \<or> t = expense
      then js_sub (toNumber (line_debitAmount line)) (toNumber (line_creditAmount line))
      else js_sub (toNumber (line_creditAmount line)) (toNumber (line_debitAmount line)))"

definition accountBalance_spec :: "Database \<Rightarrow> Account \<Rightarrow> string option \<Rightarrow> number" where
  "accountBalance_spec db account asOfDate =
     foldl js_add zero
       (map (signedAmount (acc_type account)) (referringLines db account asOfDate))"

definition signedValue :: "AccountType \<Rightarrow> JournalLine \<Rightarrow> rat" where
  "signedValue t line =
     (if t = asset \<or> t = expense
      then amountValue (line_debitAmount line) - amountValue (line_creditAmount line)
      else amountValue (line_creditAmount line) - amountValue (line_debitAmount line))"

definition accountBalance_exact :: "Database \<Rightarrow> Account \<Rightarrow> string option \<Rightarrow> rat" where
  "accountBalance_exact db account asOfDate =
     sum_list (map (signedValue (acc_type account)) (referringLines db account asOfDate))"

definition complete :: "Database \<Rightarrow> bool" where
  "complete db =
     list_all (\<lambda>line. line_debitAmount line \<noteq> None \<and> line_creditAmount line \<noteq> None)
       (storedLines db)"

section \<open>Rounding\<close>

text \<open>
  The integer logarithm brackets its argument between two powers of two, and is the only
  exponent that does. Hence a number \<open>m * 2 powi k\<close> with \<open>\<bar>m\<bar> < 2 ^ 53\<close> and
  \<open>- 1074 \<le> k\<close>, below \<open>2 ^ 1024\<close> in magnitude, is a double: rounding leaves it as it is.
  In particular every integer of magnitude below \<open>2 ^ 53\<close> is a double.
\<close>

lemma pow2_le_rat: "(2::nat) ^ k \<le> n \<Longrightarrow> (2::rat) ^ k \<le> rat_of_nat n"
proof -
  assume "(2::nat) ^ k \<le> n"
  then have "rat_of_nat (2 ^ k) \<le> rat_of_nat n" by (rule of_nat_mono)
  then show ?thesis by simp
qed

lemma succ_le_pow2_rat: "n < (2::nat) ^ k \<Longrightarrow> rat_of_nat n + 1 \<le> 2 ^ k"
proof -
  assume "n < (2::nat) ^ k"
  then have "n + 1 \<le> 2 ^ k" by simp
  then have "rat_of_nat (n + 1) \<le> rat_of_nat (2 ^ k)" by (rule of_nat_mono)
  then show ?thesis by simp
qed

lemma ilog2_ge1:
  assumes "1 \<le> \<bar>r\<bar>"
  shows "2 powi (ilog2 r) \<le> \<bar>r\<bar>" and "\<bar>r\<bar> < 2 powi (ilog2 r + 1)"
proof -
  define n where "n = nat \<lfloor>\<bar>r\<bar>\<rfloor>"
  define f where "f = floorlog 2 n"
  from assms have n: "0 < n" by (simp add: n_def)
  from floorlog_bounds[OF n, of 2] have b: "2 ^ (f - 1) \<le> n" "n < 2 ^ f"
    by (simp_all add: f_def)
  from n b(2) have f: "0 < f" by (cases f) auto
  from assms have il: "ilog2 r = int f - 1" by (simp add: ilog2_def f_def n_def)
  have "rat_of_nat n = of_int \<lfloor>\<bar>r\<bar>\<rfloor>" by (simp add: n_def)
  then have nr: "rat_of_nat n \<le> \<bar>r\<bar>" "\<bar>r\<bar> < rat_of_nat n + 1"
    by linarith+
  have e1: "(2::rat) powi (int f - 1) = 2 ^ (f - 1)"
  proof -
    from f have "int f - 1 = int (f - 1)" by simp
    then show ?thesis by (simp only: power_int_of_nat)
  qed
  have e2: "(2::rat) powi (int f - 1 + 1) = 2 ^ f" by simp
  from pow2_le_rat[OF b(1)] nr(1) show "2 powi (ilog2 r) \<le> \<bar>r\<bar>"
    by (simp only: il e1)
  from succ_le_pow2_rat[OF b(2)] nr(2) show "\<bar>r\<bar> < 2 powi (ilog2 r + 1)"
    by (simp only: il e2)
qed

lemma ilog2_lt1:
  assumes "\<bar>r\<bar> < 1" "r \<noteq> 0"
  shows "2 powi (ilog2 r) \<le> \<bar>r\<bar>" and "\<bar>r\<bar> < 2 powi (ilog2 r + 1)"
proof -
  define y where "y = 1 / \<bar>r\<bar>"
  define m where "m = nat (\<lceil>y\<rceil> - 1)"
  define f where "f = floorlog 2 m"
  from assms have y: "1 < y" by (simp add: y_def)
  then have c: "2 \<le> \<lceil>y\<rceil>" by linarith
  then have m: "0 < m" by (simp add: m_def)
  from floorlog_bounds[OF m, of 2] have b: "2 ^ (f - 1) \<le> m" "m < 2 ^ f"
    by (simp_all add: f_def)
  from m b(2) have f: "0 < f" by (cases f) auto
  from assms have il: "ilog2 r = - int f" by (simp add: ilog2_def f_def m_def y_def)
  from c have "rat_of_nat m = of_int \<lceil>y\<rceil> - 1" by (simp add: m_def)
  then have my: "rat_of_nat m < y" "y \<le> rat_of_nat m + 1"
    by linarith+
  from succ_le_pow2_rat[OF b(2)] my(2) have "y \<le> 2 ^ f" by simp
  then have "1 / 2 ^ f \<le> \<bar>r\<bar>"
    using assms by (simp add: y_def field_simps)
  then show "2 powi (ilog2 r) \<le> \<bar>r\<bar>"
    by (simp add: il power_int_minus_divide)
  from pow2_le_rat[OF b(1)] my(1) have "2 ^ (f - 1) < y" by (rule le_less_trans)
  then have "\<bar>r\<bar> < 1 / 2 ^ (f - 1)"
    using assms by (simp add: y_def field_simps)
  moreover have "(2::rat) powi (- int f + 1) = 1 / 2 ^ (f - 1)"
  proof -
    from f have "- int f + 1 = - int (f - 1)" by simp
    then show ?thesis by (simp only: power_int_minus_divide power_int_of_nat)
  qed
  ultimately show "\<bar>r\<bar> < 2 powi (ilog2 r + 1)" by (simp only: il)
qed

lemma ilog2_lower: "r \<noteq> 0 \<Longrightarrow> 2 powi (ilog2 r) \<le> \<bar>r\<bar>"
  using ilog2_ge1(1)[of r] ilog2_lt1(1)[of r] by (cases "1 \<le> \<bar>r\<bar>") simp_all

lemma ilog2_upper: "r \<noteq> 0 \<Longrightarrow> \<bar>r\<bar> < 2 powi (ilog2 r + 1)"
  using ilog2_ge1(2)[of r] ilog2_lt1(2)[of r] by (cases "1 \<le> \<bar>r\<bar>") simp_all

lemma pow2_less_imp: "(2::rat) powi a < 2 powi b \<Longrightarrow> a < b"
proof (rule ccontr)
  assume less: "(2::rat) powi a < 2 powi b" and "\<not> a < b"
  then have "b \<le> a" by simp
  then have "(2::rat) powi b \<le> 2 powi a" by (rule power_int_increasing) simp
  with less show False by simp
qed

lemma ilog2_eq:
  assumes "2 powi e \<le> \<bar>r\<bar>" "\<bar>r\<bar> < 2 powi (e + 1)"
  shows "ilog2 r = e"
proof -
  from assms(1) have nz: "r \<noteq> 0"
    by (metis abs_zero not_le zero_less_numeral zero_less_power_int)
  have "(2::rat) powi (ilog2 r) < 2 powi (e + 1)"
    using ilog2_lower[OF nz] assms(2) by (rule le_less_trans)
  then have a: "ilog2 r < e + 1" by (rule pow2_less_imp)
  have "(2::rat) powi e < 2 powi (ilog2 r + 1)"
    using assms(1) ilog2_upper[OF nz] by (rule le_less_trans)
  then have b: "e < ilog2 r + 1" by (rule pow2_less_imp)
  from a b show ?thesis by simp
qed

lemma round_even_int [simp]: "round_even (of_int n) = n"
  by (simp add: round_even_def)

lemma fl_0 [simp]: "fl 0 = Finite 0"
  by (simp add: fl_def round_even_def)

lemma fl_exact:
  assumes m: "\<bar>m\<bar> < 2 ^ 53" and k: "- 1074 \<le> k"
    and big: "\<bar>of_int m * 2 powi k\<bar> < (2::rat) ^ 1024"
  shows "fl (of_int m * 2 powi k) = Finite (of_int m * 2 powi k)"
proof (cases "of_int m * (2::rat) powi k = 0")
  case True
  then show ?thesis by simp
next
  case False
  define r :: rat where "r = of_int m * 2 powi k"
  define x where "x = max (ilog2 r) (- 1022) - 52"
  from False have nz: "r \<noteq> 0" by (simp add: r_def)
  have xk: "x \<le> k"
  proof -
    from m have "\<bar>rat_of_int m\<bar> < 2 ^ 53"
      by (metis of_int_abs of_int_less_numeral_power_cancel_iff)
    then have "\<bar>r\<bar> < 2 ^ 53 * 2 powi k"
      by (simp add: r_def abs_mult)
    also have "\<dots> = 2 powi (53 + k)" by (simp add: power_int_add)
    finally have "(2::rat) powi (ilog2 r) < 2 powi (53 + k)"
      using ilog2_lower[OF nz] by simp
    then have "ilog2 r < 53 + k" by (rule pow2_less_imp)
    with k show ?thesis by (simp add: x_def)
  qed
  then obtain d where d: "k = x + int d"
    by (metis zle_iff_zadd)
  have "r / 2 powi x = of_int m * 2 powi (k - x)"
    by (simp add: r_def power_int_diff)
  also have "\<dots> = of_int (m * 2 ^ d)" by (simp add: d)
  finally have q: "r / 2 powi x = of_int (m * 2 ^ d)" .
  have "of_int (round_even (r / 2 powi x)) * 2 powi x = r"
    unfolding q round_even_int using q by (simp add: field_simps)
  with big show ?thesis
    unfolding fl_def Let_def r_def[symmetric] x_def[symmetric] by simp
qed

lemma fl_int: "\<bar>n\<bar> < 2 ^ 53 \<Longrightarrow> fl (of_int n) = Finite (of_int n)"
proof -
  assume n: "\<bar>n\<bar> < 2 ^ 53"
  then have "\<bar>rat_of_int n\<bar> < 2 ^ 53"
    by (metis of_int_abs of_int_less_numeral_power_cancel_iff)
  also have "\<dots> < (2::rat) ^ 1024" by simp
  finally show ?thesis using fl_exact[of n 0] n by simp
qed

lemma round_even_near:
  assumes "of_int n - 1 / 2 < q" "q < of_int n + 1 / 2"
  shows "round_even q = n"
proof (cases "of_int n \<le> q")
  case True
  with assms have "\<lfloor>q\<rfloor> = n" by (intro floor_unique) simp_all
  with assms show ?thesis by (simp add: round_even_def)
next
  case False
  with assms have f: "\<lfloor>q\<rfloor> = n - 1" by (intro floor_unique) simp_all
  with assms False show ?thesis by (simp add: round_even_def)
qed

lemma round_even_tie:
  assumes "q = of_int n + 1 / 2"
  shows "round_even q = (if even n then n else n + 1)"
proof -
  from assms have "\<lfloor>q\<rfloor> = n" by (intro floor_unique) simp_all
  with assms show ?thesis by (simp add: round_even_def)
qed

lemma ilog2_lit: "ilog2 (1 / 100) = - 7"
  by (rule ilog2_eq) simp_all

lemma round_lit: "round_even (144115188075855872 / 25) = 5764607523034235"
  by (rule round_even_near) simp_all

lemma fl_lit: "fl (1 / 100) = Finite (5764607523034235 / 2 ^ 59)"
  by (simp add: fl_def ilog2_lit round_lit)

lemma ilog2_tie: "ilog2 9007199254740993 = 53"
  by (rule ilog2_eq) simp_all

lemma round_tie: "round_even (9007199254740993 / 2) = 4503599627370496"
  using round_even_tie[of "9007199254740993 / 2" 4503599627370496] by simp

lemma fl_tie: "fl 9007199254740993 = Finite 9007199254740992"
  by (simp add: fl_def ilog2_tie round_tie)

lemma ilog2_e16: "ilog2 10000000000000001 = 53"
  by (rule ilog2_eq) simp_all

lemma round_e16: "round_even (10000000000000001 / 2) = 5000000000000000"
  using round_even_tie[of "10000000000000001 / 2" 5000000000000000] by simp

lemma fl_e16: "fl 10000000000000001 = Finite 10000000000000000"
  by (simp add: fl_def ilog2_e16 round_e16)

lemma fl_numeral [simp]: "numeral w < (2::int) ^ 53 \<Longrightarrow> fl (numeral w) = Finite (numeral w)"
  using fl_int[of "numeral w"] by simp

lemma fl_neg_numeral [simp]: "numeral w < (2::int) ^ 53 \<Longrightarrow> fl (- numeral w) = Finite (- numeral w)"
  using fl_int[of "- numeral w"] by simp

lemma fl_1 [simp]: "fl 1 = Finite 1"
  using fl_int[of 1] by simp

lemma fl_dyadic: "fl (129 / 128) = Finite (129 / 128)"
  using fl_exact[of 129 "-7"] by simp

lemma fl_dyadic2: "fl (1 / 128) = Finite (1 / 128)"
  using fl_exact[of 1 "-7"] by simp

lemma fl_pow53: "fl 9007199254740992 = Finite 9007199254740992"
  using fl_exact[of 1 53] by simp

lemma lit_0_01_eq: "lit_0_01 = Finite (5764607523034235 / 576460752303423488)"
  by (simp add: lit_0_01_def fl_lit)

lemma or0_Finite [simp]: "or0 (Some (Finite r)) = Finite r"
  by simp

declare or0.simps(3) [simp del]

lemma js_sub_Finite [simp]: "js_sub (Finite a) (Finite b) = fl (a - b)"
  by (simp add: js_sub_def)

section \<open>Basic facts\<close>

lemmas example_defs =
  seedAccount_def exampleDb_def restLine_def restBody_def mcpLine_def mcpParams_def

section \<open>A failed create leaves the store as it was\<close>

lemma post_journal_entries_failure:
  "fst (post_journal_entries db now body) = Json st (Inl e)
     \<longrightarrow> snd (post_journal_entries db now body) = db"
  by (cases "jb_date body"; cases "jb_description body"; cases "jb_lines body")
     (simp_all add: post_journal_entries_def case_prod_beta split: option.split)

lemma mcp_createJournalEntry_failure:
  "fst (mcp_createJournalEntry db now params) = Inl e
     \<longrightarrow> snd (mcp_createJournalEntry db now params) = db"
  by (cases "mp_date params"; cases "mp_description params"; cases "mp_lines params")
     (simp_all add: mcp_createJournalEntry_def case_prod_beta Let_def split: sum.split)

lemma rest_unbalanced_rejected:
  "fst (post_journal_entries exampleDb 5 (restBody [restLine 0 10000 0, restLine 1 0 9000]))
   = Json 400 (Inl DebitsCreditsMustBeEqual)"
  by (simp add: post_journal_entries_def example_defs getAccountById_def sumDebit_def
        sumCredit_def lit_0_01_eq)

lemma mcp_unbalanced_rejected:
  "fst (mcp_createJournalEntry exampleDb 5
          (mcpParams [mcpLine ''100'' 10000 0, mcpLine ''400'' 0 9000]))
   = Inl (DebitsCreditsMustBeEqualOf (Finite 10000) (Finite 9000))"
  by (simp add: mcp_createJournalEntry_def example_defs getAccountByCode_def totalOf_def
        dateRegex_def isDigit_def lit_0_01_eq)

text \<open>
  C2. Whenever \<^verbatim>\<open>POST /journal-entries\<close> answers with an error, or the tool
  \<^verbatim>\<open>create_journal_entry\<close> answers \<^verbatim>\<open>success: false\<close>, whatever the reason (missing
  fields, fewer than two lines, an account that does not resolve, a line with both sides,
  unequal sums, a malformed date), the database afterwards is the database before: the
  accounts, the journal entries and their number are untouched.
\<close>

theorem failed_create_leaves_store_unmodified:
  "(fst (post_journal_entries db now body) = Json st (Inl e)
      \<longrightarrow> snd (post_journal_entries db now body) = db)
   \<and> (fst (mcp_createJournalEntry db now' params) = Inl e'
      \<longrightarrow> snd (mcp_createJournalEntry db now' params) = db)"
  using post_journal_entries_failure mcp_createJournalEntry_failure by blast

theorem failed_create_leaves_store_unmodified_witness:
  "snd (post_journal_entries exampleDb 5 (restBody [restLine 0 10000 0, restLine 1 0 9000]))
     = exampleDb
   \<and> snd (mcp_createJournalEntry exampleDb 5
            (mcpParams [mcpLine ''100'' 10000 0, mcpLine ''400'' 0 9000])) = exampleDb"
  using failed_create_leaves_store_unmodified
          [of exampleDb 5 "restBody [restLine 0 10000 0, restLine 1 0 9000]"
              400 DebitsCreditsMustBeEqual
              5 "mcpParams [mcpLine ''100'' 10000 0, mcpLine ''400'' 0 9000]"
              "DebitsCreditsMustBeEqualOf (Finite 10000) (Finite 9000)"]
        rest_unbalanced_rejected mcp_unbalanced_rejected
  by simp

section \<open>The order of the balance check and the one-side check\<close>

lemma dateRegex_example: "dateRegex ''2024-01-15''"
  by (simp add: dateRegex_def isDigit_def)

lemma both_sides_unbalanced_rest:
  "fst (post_journal_entries exampleDb 5 (restBody [restLine 0 10 5, restLine 1 0 0]))
   = Json 400 (Inl DebitsCreditsMustBeEqual)"
  by (simp add: post_journal_entries_def example_defs getAccountById_def sumDebit_def
        sumCredit_def lit_0_01_eq)

lemma both_sides_unbalanced_mcp:
  "fst (mcp_createJournalEntry exampleDb 5
          (mcpParams [mcpLine ''100'' 10 5, mcpLine ''400'' 0 0]))
   = Inl (DebitsCreditsMustBeEqualOf (Finite 10) (Finite 5))"
  by (simp add: mcp_createJournalEntry_def example_defs getAccountByCode_def totalOf_def
        dateRegex_def isDigit_def lit_0_01_eq)

text \<open>
  C3, as stated, fails: a submission whose first line has debit 10 and credit 5 (both
  positive) and whose sums are 10 and 5 is answered with the unbalanced error on both
  surfaces, not with the error about a line carrying both sides.
\<close>

theorem unbalanced_error_wins_over_both_sides_error:
  "list_ex bothSides [restLine 0 10 5, restLine 1 0 0]
   \<and> sumDebit [restLine 0 10 5, restLine 1 0 0] \<noteq> sumCredit [restLine 0 10 5, restLine 1 0 0]
   \<and> fst (post_journal_entries exampleDb 5 (restBody [restLine 0 10 5, restLine 1 0 0]))
       = Json 400 (Inl DebitsCreditsMustBeEqual)
   \<and> fst (mcp_createJournalEntry exampleDb 5
            (mcpParams [mcpLine ''100'' 10 5, mcpLine ''400'' 0 0]))
       = Inl (DebitsCreditsMustBeEqualOf (Finite 10) (Finite 5))"
  using both_sides_unbalanced_rest both_sides_unbalanced_mcp
  by (simp add: bothSides_def restLine_def sumDebit_def sumCredit_def)

text \<open>
  C3, amended: the balance check precedes the one-side check. A submission that passes
  the checks on fields, line count (and, for the tool, date format) and accounts is
  answered with the unbalanced error whenever its sums differ by more than 0.01, whether
  or not a line has both amounts positive; the error about a line with both sides is
  returned only when the sums are within 0.01; otherwise the entry is created.
\<close>

theorem balance_check_precedes_side_check:
  assumes "jb_date body = Some date" "date \<noteq> []"
    and "jb_description body = Some description" "description \<noteq> []"
    and "jb_lines body = Some lines" "2 \<le> length lines"
    and "find (\<lambda>line. getAccountById db (li_accountId line) = None) lines = None"
    and "mp_date params = Some mdate" "mdate \<noteq> []" "dateRegex mdate"
    and "mp_description params = Some mdescription" "mdescription \<noteq> []"
    and "mp_lines params = Some mlines" "2 \<le> length mlines"
    and "resolveLines db mlines = Inr entryLines"
  shows "fst (post_journal_entries db now body) =
           (if js_gt (js_abs (js_sub (sumDebit lines) (sumCredit lines))) lit_0_01
            then Json 400 (Inl DebitsCreditsMustBeEqual)
            else if list_ex bothSides lines then Json 400 (Inl EitherDebitOrCreditNotBoth)
            else Json 201 (Inr (fst (createJournalEntry db now
                   \<lparr>ei_date = date, ei_description = description, ei_isClosed = None\<rparr>
                   lines))))
       \<and> fst (mcp_createJournalEntry db now' params) =
           (if js_gt (js_abs (js_sub (totalOf li_debitAmount entryLines)
                                (totalOf li_creditAmount entryLines))) lit_0_01
            then Inl (DebitsCreditsMustBeEqualOf (totalOf li_debitAmount entryLines)
                        (totalOf li_creditAmount entryLines))
            else if list_ex bothPositive entryLines then Inl EitherDebitOrCreditNotBoth
            else Inr (let created = createJournalEntry db now'
                            \<lparr>ei_date = mdate, ei_description = mdescription,
                             ei_isClosed = None\<rparr> entryLines
                      in \<lparr>rj_id = entry_id (fst created), rj_date = entry_date (fst created),
                          rj_description = entry_description (fst created),
                          rj_lines = map (mcpResultLine (snd created))
                                       (entry_lines (fst created))\<rparr>))"
proof -
  have "\<not> length lines < 2" "\<not> length mlines < 2"
    using assms by simp_all
  then show ?thesis
    using assms
    by (simp add: post_journal_entries_def mcp_createJournalEntry_def case_prod_beta Let_def)
qed

lemma resolveLines_example:
  "resolveLines exampleDb [mcpLine ''100'' 10 5, mcpLine ''400'' 5 10]
   = Inr [restLine 0 10 5, restLine 1 5 10]"
  by (simp add: example_defs getAccountByCode_def)

lemma accounts_resolve_example:
  "find (\<lambda>line. getAccountById exampleDb (li_accountId line) = None)
     [restLine 0 10 5, restLine 1 5 10] = None"
  by (simp add: example_defs getAccountById_def)

theorem balance_check_precedes_side_check_witness:
  "fst (post_journal_entries exampleDb 5 (restBody [restLine 0 10 5, restLine 1 5 10]))
     = Json 400 (Inl EitherDebitOrCreditNotBoth)
   \<and> fst (mcp_createJournalEntry exampleDb 5
            (mcpParams [mcpLine ''100'' 10 5, mcpLine ''400'' 5 10]))
     = Inl EitherDebitOrCreditNotBoth"
  using balance_check_precedes_side_check
     [where db = exampleDb and now = 5 and now' = 5
      and body = "restBody [restLine 0 10 5, restLine 1 5 10]"
      and date = "''2024-01-15''" and description = "''Entry''"
      and lines = "[restLine 0 10 5, restLine 1 5 10]"
      and params = "mcpParams [mcpLine ''100'' 10 5, mcpLine ''400'' 5 10]"
      and mdate = "''2024-01-15''" and mdescription = "''Entry''"
      and mlines = "[mcpLine ''100'' 10 5, mcpLine ''400'' 5 10]"
      and entryLines = "[restLine 0 10 5, restLine 1 5 10]"]
    resolveLines_example dateRegex_example accounts_resolve_example
  by (simp add: restBody_def mcpParams_def sumDebit_def sumCredit_def totalOf_def
        bothSides_def bothPositive_def restLine_def lit_0_01_eq)

section \<open>A line with neither side\<close>

lemma neither_side_rest:
  "fst (post_journal_entries exampleDb 5
          (restBody [restLine 0 10000 0, restLine 1 0 10000, restLine 0 0 0]))
   = Json 201 (Inr
       \<lparr>entry_id = 3, entry_date = Some ''2024-01-15'', entry_description = Some ''Entry'',
        entry_lines =
          [\<lparr>line_id = 4, line_journalEntryId = 3, line_accountId = 0,
            line_accountName = Some ''Cash'', line_debitAmount = Some (Finite 10000),
            line_creditAmount = Some (Finite 0)\<rparr>,
           \<lparr>line_id = 6, line_journalEntryId = 3, line_accountId = 1,
            line_accountName = Some ''Sales'', line_debitAmount = Some (Finite 0),
            line_creditAmount = Some (Finite 10000)\<rparr>,
           \<lparr>line_id = 8, line_journalEntryId = 3, line_accountId = 0,
            line_accountName = Some ''Cash'', line_debitAmount = Some (Finite 0),
            line_creditAmount = Some (Finite 0)\<rparr>],
        entry_createdAt = 5, entry_updatedAt = 5, entry_isClosed = None\<rparr>)"
  by (simp add: post_journal_entries_def example_defs getAccountById_def sumDebit_def
        sumCredit_def bothSides_def createJournalEntry_def uuidv4_def accountNameOf_def
        Let_def lit_0_01_eq)

lemma neither_side_mcp:
  "fst (mcp_createJournalEntry exampleDb 5
          (mcpParams [mcpLine ''100'' 10000 0, mcpLine ''400'' 0 10000, mcpLine ''100'' 0 0]))
   = Inr \<lparr>rj_id = 3, rj_date = Some ''2024-01-15'', rj_description = Some ''Entry'',
          rj_lines =
            [\<lparr>rl_accountCode = Some ''100'', rl_accountName = Some ''Cash'',
              rl_debitAmount = Some (Finite 10000), rl_creditAmount = Some (Finite 0)\<rparr>,
             \<lparr>rl_accountCode = Some ''400'', rl_accountName = Some ''Sales'',
              rl_debitAmount = Some (Finite 0), rl_creditAmount = Some (Finite 10000)\<rparr>,
             \<lparr>rl_accountCode = Some ''100'', rl_accountName = Some ''Cash'',
              rl_debitAmount = Some (Finite 0), rl_creditAmount = Some (Finite 0)\<rparr>]\<rparr>"
  by (simp add: mcp_createJournalEntry_def example_defs getAccountByCode_def totalOf_def
        dateRegex_def isDigit_def bothPositive_def createJournalEntry_def uuidv4_def
        accountNameOf_def getAccountById_def mcpResultLine_def Let_def lit_0_01_eq)

text \<open>
  C4 on the code: a submission of three lines, debit 10000 on cash, credit 10000 on sales
  and a third line on cash with debit 0 and credit 0, is accepted on both surfaces (201,
  and \<^verbatim>\<open>success: true\<close>), and the line with neither side is part of the stored entry.
  The one-side check only rejects a line whose two amounts are both positive.
\<close>

theorem line_with_neither_side_is_accepted:
  "fst (post_journal_entries exampleDb 5
          (restBody [restLine 0 10000 0, restLine 1 0 10000, restLine 0 0 0]))
   = Json 201 (Inr
       \<lparr>entry_id = 3, entry_date = Some ''2024-01-15'', entry_description = Some ''Entry'',
        entry_lines =
          [\<lparr>line_id = 4, line_journalEntryId = 3, line_accountId = 0,
            line_accountName = Some ''Cash'', line_debitAmount = Some (Finite 10000),
            line_creditAmount = Some (Finite 0)\<rparr>,
           \<lparr>line_id = 6, line_journalEntryId = 3, line_accountId = 1,
            line_accountName = Some ''Sales'', line_debitAmount = Some (Finite 0),
            line_creditAmount = Some (Finite 10000)\<rparr>,
           \<lparr>line_id = 8, line_journalEntryId = 3, line_accountId = 0,
            line_accountName = Some ''Cash'', line_debitAmount = Some (Finite 0),
            line_creditAmount = Some (Finite 0)\<rparr>],
        entry_createdAt = 5, entry_updatedAt = 5, entry_isClosed = None\<rparr>)
   \<and> fst (mcp_createJournalEntry exampleDb 5
          (mcpParams [mcpLine ''100'' 10000 0, mcpLine ''400'' 0 10000, mcpLine ''100'' 0 0]))
   = Inr \<lparr>rj_id = 3, rj_date = Some ''2024-01-15'', rj_description = Some ''Entry'',
          rj_lines =
            [\<lparr>rl_accountCode = Some ''100'', rl_accountName = Some ''Cash'',
              rl_debitAmount = Some (Finite 10000), rl_creditAmount = Some (Finite 0)\<rparr>,
             \<lparr>rl_accountCode = Some ''400'', rl_accountName = Some ''Sales'',
              rl_debitAmount = Some (Finite 0), rl_creditAmount = Some (Finite 10000)\<rparr>,
             \<lparr>rl_accountCode = Some ''100'', rl_accountName = Some ''Cash'',
              rl_debitAmount = Some (Finite 0), rl_creditAmount = Some (Finite 0)\<rparr>]\<rparr>"
  using neither_side_rest neither_side_mcp by simp

section \<open>Finding, replacing and removing the first match\<close>

lemma findIndex_Some:
  "findIndex P xs = Some k \<Longrightarrow> k < length xs \<and> P (xs ! k) \<and> find P xs = Some (xs ! k)"
  by (induction xs arbitrary: k) (auto split: if_splits)

lemma find_Some_findIndex:
  "find P xs = Some a \<Longrightarrow> \<exists>k. findIndex P xs = Some k \<and> xs ! k = a"
  by (induction xs) (auto split: if_splits)

lemma find_update_first:
  "findIndex P xs = Some k \<Longrightarrow> P y \<Longrightarrow> find P (xs[k := y]) = Some y"
  by (induction xs arbitrary: k) (auto split: if_splits)

lemma splice1_first:
  "findIndex P xs = Some k \<Longrightarrow> splice1 k xs = remove1 (xs ! k) xs"
proof (induction xs arbitrary: k)
  case Nil
  then show ?case by simp
next
  case (Cons x xs)
  show ?case
  proof (cases "P x")
    case True
    with Cons.prems show ?thesis by (simp add: splice1_def)
  next
    case False
    with Cons.prems obtain j where j: "findIndex P xs = Some j" "k = Suc j"
      by auto
    from findIndex_Some[OF j(1)] have "P (xs ! j)" by simp
    with False have "x \<noteq> xs ! j" by auto
    with Cons.IH[OF j(1)] j(2) show ?thesis by (simp add: splice1_def)
  qed
qed

lemma map_update_same:
  "k < length xs \<Longrightarrow> f y = f (xs ! k) \<Longrightarrow> map f (xs[k := y]) = map f xs"
  by (metis list_update_id map_update nth_map)

lemma find_remove1_distinct:
  "distinct (map f xs) \<Longrightarrow> find (\<lambda>a. f a = i) xs = Some acc
     \<Longrightarrow> find (\<lambda>a. f a = i) (remove1 acc xs) = None"
proof (induction xs)
  case Nil
  then show ?case by simp
next
  case (Cons x xs)
  show ?case
  proof (cases "f x = i")
    case True
    with Cons.prems have "x = acc" "f x \<notin> f ` set xs" by auto
    with True have "\<forall>a\<in>set xs. f a \<noteq> i" by (metis imageI)
    with \<open>x = acc\<close> show ?thesis by (simp add: find_None_iff)
  next
    case False
    with Cons.prems have "find (\<lambda>a. f a = i) xs = Some acc" by simp
    moreover from this have "f acc = i" by (auto simp: find_Some_iff)
    ultimately show ?thesis using Cons False by auto
  qed
qed

lemma usedDb_eval:
  "usedDb = exampleDb\<lparr>journalEntries := [saleEntry], uuid_state := 8\<rparr>"
  by (simp add: usedDb_def post_journal_entries_def example_defs getAccountById_def
        sumDebit_def sumCredit_def bothSides_def createJournalEntry_def uuidv4_def
        accountNameOf_def Let_def saleEntry_def lit_0_01_eq)

section \<open>Updating an account through \<^verbatim>\<open>PUT /accounts/:id\<close>\<close>

lemma Account_update_eq:
  "\<lparr>acc_id = acc_id a, acc_code = acc_code a, acc_name = n, acc_type = acc_type a,
    acc_category = c, acc_parentId = acc_parentId a, acc_createdAt = acc_createdAt a,
    acc_updatedAt = u\<rparr>
   = a\<lparr>acc_name := n, acc_category := c, acc_updatedAt := u\<rparr>"
  by (cases a) simp

lemma put_accounts_accounts:
  "accounts (snd (put_accounts db now i body)) =
     (case findIndex (\<lambda>acc. acc_id acc = i) (accounts db) of
        None \<Rightarrow> accounts db
      | Some k \<Rightarrow> (accounts db)[k := (accounts db ! k)
          \<lparr>acc_name := pb_name body, acc_category := pb_category body,
           acc_updatedAt := now\<rparr>])"
  by (simp add: put_accounts_def updateAccount_def spread_def Let_def Account_update_eq
        split: option.split)

lemma put_accounts_frame:
  "map f (accounts (snd (put_accounts db now i body))) = map f (accounts db)"
  if "\<And>a n c u. f (a\<lparr>acc_name := n, acc_category := c, acc_updatedAt := u\<rparr>) = f a"
  using that
  by (auto simp: put_accounts_accounts map_update_same dest!: findIndex_Some split: option.split)

text \<open>
  C9. \<^verbatim>\<open>PUT /accounts/:id\<close> never changes an account's code or type. The stored list
  after the request is the list before, except that the first account with the given id
  (if there is one) has its name, category and \<^verbatim>\<open>updatedAt\<close> replaced; the codes, types
  and ids of all accounts are as before, and a \<^verbatim>\<open>code\<close> or \<^verbatim>\<open>type\<close> sent in the body
  makes no difference to the outcome.
\<close>

theorem account_update_keeps_code_and_type:
  "accounts (snd (put_accounts db now i body)) =
     (case findIndex (\<lambda>acc. acc_id acc = i) (accounts db) of
        None \<Rightarrow> accounts db
      | Some k \<Rightarrow> (accounts db)[k := (accounts db ! k)
          \<lparr>acc_name := pb_name body, acc_category := pb_category body,
           acc_updatedAt := now\<rparr>])
   \<and> map acc_code (accounts (snd (put_accounts db now i body))) = map acc_code (accounts db)
   \<and> map acc_type (accounts (snd (put_accounts db now i body))) = map acc_type (accounts db)
   \<and> map acc_id (accounts (snd (put_accounts db now i body))) = map acc_id (accounts db)
   \<and> put_accounts db now i (body\<lparr>pb_code := c, pb_type := t\<rparr>) = put_accounts db now i body"
proof -
  have frame: "put_accounts db now i (body\<lparr>pb_code := c, pb_type := t\<rparr>)
               = put_accounts db now i body"
    by (simp add: put_accounts_def)
  have code: "map acc_code (accounts (snd (put_accounts db now i body)))
              = map acc_code (accounts db)"
    by (rule put_accounts_frame) simp
  have type: "map acc_type (accounts (snd (put_accounts db now i body)))
              = map acc_type (accounts db)"
    by (rule put_accounts_frame) simp
  have ident: "map acc_id (accounts (snd (put_accounts db now i body)))
               = map acc_id (accounts db)"
    by (rule put_accounts_frame) simp
  from put_accounts_accounts code type ident frame show ?thesis
    by (intro conjI)
qed

theorem account_update_keeps_code_and_type_witness:
  "map acc_code (accounts (snd (put_accounts exampleDb 9 0
       \<lparr>pb_name = Some ''Petty cash'', pb_category = Some ''Current assets'',
        pb_code = Some ''999'', pb_type = Some ''liability''\<rparr>))) = [''100'', ''400'', ''500'']
   \<and> map acc_type (accounts (snd (put_accounts exampleDb 9 0
       \<lparr>pb_name = Some ''Petty cash'', pb_category = Some ''Current assets'',
        pb_code = Some ''999'', pb_type = Some ''liability''\<rparr>))) = [asset, revenue, expense]"
  using account_update_keeps_code_and_type [of exampleDb 9 0
       "\<lparr>pb_name = Some ''Petty cash'', pb_category = Some ''Current assets'',
         pb_code = Some ''999'', pb_type = Some ''liability''\<rparr>"]
  by (simp add: exampleDb_def seedAccount_def)

lemma put_accounts_stored:
  assumes "getAccountById db i = Some acc"
  shows "getAccountById (snd (put_accounts db now i body)) i
         = Some (acc\<lparr>acc_name := pb_name body, acc_category := pb_category body,
                      acc_updatedAt := now\<rparr>)"
proof -
  from assms obtain k where k: "findIndex (\<lambda>a. acc_id a = i) (accounts db) = Some k"
    "accounts db ! k = acc"
    unfolding getAccountById_def by (blast dest: find_Some_findIndex)
  from findIndex_Some[OF k(1)] k(2) have "acc_id acc = i" by simp
  then show ?thesis
    using k find_update_first[OF k(1), of "acc\<lparr>acc_name := pb_name body,
             acc_category := pb_category body, acc_updatedAt := now\<rparr>"]
    by (simp add: getAccountById_def put_accounts_accounts)
qed

text \<open>
  C10. For an account that exists, \<^verbatim>\<open>PUT /accounts/:id\<close> stores exactly the body's
  \<^verbatim>\<open>name\<close> and \<^verbatim>\<open>category\<close>: a body that omits \<^verbatim>\<open>name\<close> leaves the stored account with
  the name \<^verbatim>\<open>undefined\<close>, whatever it was before, and likewise for \<^verbatim>\<open>category\<close>.
\<close>

theorem omitted_field_is_stored_as_undefined:
  assumes "getAccountById db i = Some acc"
  shows "getAccountById (snd (put_accounts db now i body)) i
           = Some (acc\<lparr>acc_name := pb_name body, acc_category := pb_category body,
                        acc_updatedAt := now\<rparr>)
       \<and> (pb_name body = None
            \<longrightarrow> map_option acc_name (getAccountById (snd (put_accounts db now i body)) i)
                = Some None)
       \<and> (pb_category body = None
            \<longrightarrow> map_option acc_category (getAccountById (snd (put_accounts db now i body)) i)
                = Some None)"
  using put_accounts_stored[OF assms, of now body] by simp

theorem omitted_field_is_stored_as_undefined_witness:
  "map_option acc_name (getAccountById exampleDb 0) = Some (Some ''Cash'')
   \<and> map_option acc_category (getAccountById exampleDb 0) = Some (Some ''Current assets'')
   \<and> map_option acc_name (getAccountById (snd (put_accounts exampleDb 9 0
        \<lparr>pb_name = None, pb_category = None, pb_code = None, pb_type = None\<rparr>)) 0)
       = Some None
   \<and> map_option acc_category (getAccountById (snd (put_accounts exampleDb 9 0
        \<lparr>pb_name = None, pb_category = None, pb_code = None, pb_type = None\<rparr>)) 0)
       = Some None"
  using omitted_field_is_stored_as_undefined
        [of exampleDb 0 "seedAccount 0 ''100'' ''Cash'' asset ''Current assets''" 9
        "\<lparr>pb_name = None, pb_category = None, pb_code = None, pb_type = None\<rparr>"]
  by (simp add: exampleDb_def seedAccount_def getAccountById_def)

section \<open>Deleting an account\<close>

lemma isUsed_iff:
  "isUsed db i \<longleftrightarrow>
     (\<exists>entry\<in>set (journalEntries db). \<exists>line\<in>set (entry_lines entry). line_accountId line = i)"
  by (simp add: isUsed_def list_ex_iff)

lemma deleteAccount_used: "isUsed db i \<Longrightarrow> deleteAccount db i = (False, db)"
  by (simp add: deleteAccount_def)

lemma deleteAccount_unused:
  assumes "\<not> isUsed db i" "getAccountById db i = Some acc"
  shows "deleteAccount db i = (True, db\<lparr>accounts := remove1 acc (accounts db)\<rparr>)"
proof -
  from assms(2) obtain k where k: "findIndex (\<lambda>a. acc_id a = i) (accounts db) = Some k"
    "accounts db ! k = acc"
    unfolding getAccountById_def by (blast dest: find_Some_findIndex)
  with assms(1) splice1_first[OF k(1)] show ?thesis
    by (simp add: deleteAccount_def)
qed

text \<open>
  C6. \<^verbatim>\<open>DELETE /accounts/:id\<close> is guarded by usage. If a line of any stored entry refers
  to the account, the answer is the error (status 400) and the database is unchanged, so
  the account is kept. If no line refers to it and the account exists, the answer is 204
  and the account is removed from the list, nothing else changes, and (the ids being
  distinct) no account with that id is left.
\<close>

theorem account_deletion_guarded_by_usage:
  "((\<exists>entry\<in>set (journalEntries db). \<exists>line\<in>set (entry_lines entry). line_accountId line = i)
      \<longrightarrow> delete_accounts db i = (Json 400 (Inl CannotDeleteAccount), db))
   \<and> (\<not> (\<exists>entry\<in>set (journalEntries db). \<exists>line\<in>set (entry_lines entry).
            line_accountId line = i)
       \<and> getAccountById db i = Some acc
      \<longrightarrow> delete_accounts db i = (Send 204, db\<lparr>accounts := remove1 acc (accounts db)\<rparr>)
          \<and> (distinct (map acc_id (accounts db))
               \<longrightarrow> getAccountById (snd (delete_accounts db i)) i = None))"
  using deleteAccount_used[of db i] deleteAccount_unused[of db i acc]
    find_remove1_distinct[of acc_id "accounts db" i acc]
  by (auto simp: isUsed_iff delete_accounts_def getAccountById_def)

theorem account_deletion_guarded_by_usage_witness:
  "delete_accounts usedDb 0 = (Json 400 (Inl CannotDeleteAccount), usedDb)
   \<and> fst (delete_accounts usedDb 2) = Send 204
   \<and> map acc_id (accounts (snd (delete_accounts usedDb 2))) = [0, 1]
   \<and> getAccountById (snd (delete_accounts usedDb 2)) 2 = None"
  using account_deletion_guarded_by_usage
          [of usedDb 0 "seedAccount 0 ''100'' ''Cash'' asset ''Current assets''"]
        account_deletion_guarded_by_usage
          [of usedDb 2 "seedAccount 2 ''500'' ''Purchases'' expense ''Cost of sales''"]
  by (simp add: usedDb_eval saleEntry_def exampleDb_def seedAccount_def getAccountById_def)

section \<open>The balance sheet\<close>

lemma purchaseDb_eval:
  "purchaseDb = exampleDb\<lparr>journalEntries :=
      [\<lparr>entry_id = 3, entry_date = Some ''2024-01-15'', entry_description = Some ''Entry'',
        entry_lines =
          [\<lparr>line_id = 4, line_journalEntryId = 3, line_accountId = 2,
            line_accountName = Some ''Purchases'', line_debitAmount = Some (Finite 100),
            line_creditAmount = Some (Finite 0)\<rparr>,
           \<lparr>line_id = 6, line_journalEntryId = 3, line_accountId = 0,
            line_accountName = Some ''Cash'', line_debitAmount = Some (Finite 0),
            line_creditAmount = Some (Finite 100)\<rparr>],
        entry_createdAt = 5, entry_updatedAt = 5, entry_isClosed = None\<rparr>],
      uuid_state := 8\<rparr>"
  by (simp add: purchaseDb_def post_journal_entries_def example_defs getAccountById_def
        sumDebit_def sumCredit_def bothSides_def createJournalEntry_def uuidv4_def
        accountNameOf_def Let_def lit_0_01_eq)

lemma purchase_balance_sheet:
  "getBalanceSheet purchaseDb None
   = \<lparr>assets_total = Finite (- 100), liabilities_total = Finite 0, equity_total = Finite 100\<rparr>"
  by (simp add: purchaseDb_eval exampleDb_def seedAccount_def getBalanceSheet_def
        entriesAsOf_def initAmounts_def bsLine_def Let_def js_sub_def)

text \<open>
  C8 on the code: after the single, exactly balanced entry that debits purchases (an
  expense account) with 100 and credits cash with 100, the balance sheet reports assets
  -100, liabilities 0 and equity 100. The two sides differ by 200: the expense balance is
  added to equity where the accounting identity needs it subtracted.
\<close>

theorem balance_sheet_identity_fails_with_expense:
  "list_all (\<lambda>entry. entryDebit entry = entryCredit entry) (journalEntries purchaseDb)
   \<and> getBalanceSheet purchaseDb None
       = \<lparr>assets_total = Finite (- 100), liabilities_total = Finite 0,
          equity_total = Finite 100\<rparr>
   \<and> js_gt (js_abs (js_sub (assets_total (getBalanceSheet purchaseDb None))
                      (js_add (liabilities_total (getBalanceSheet purchaseDb None))
                         (equity_total (getBalanceSheet purchaseDb None))))) lit_0_01"
  by (simp add: purchase_balance_sheet lit_0_01_eq)
     (simp add: purchaseDb_eval entryDebit_def entryCredit_def)

section \<open>What each operation does to the store\<close>

lemma JournalEntry_update_eq:
  "\<lparr>entry_id = entry_id e, entry_date = d, entry_description = t,
    entry_lines = entry_lines e, entry_createdAt = entry_createdAt e,
    entry_updatedAt = u, entry_isClosed = entry_isClosed e\<rparr>
   = e\<lparr>entry_date := d, entry_description := t, entry_updatedAt := u\<rparr>"
  by (cases e) simp

lemma post_accounts_shape:
  "snd (post_accounts db now body) = db
   \<or> snd (post_accounts db now body)
       = db\<lparr>accounts := accounts db @ [fst (createAccount db now
              \<lparr>in_code = the (ab_code body), in_name = ab_name body,
               in_type = the (ab_type body), in_category = ab_category body,
               in_parentId = ab_parentId body\<rparr>)],
            uuid_state := Suc (uuid_state db)\<rparr>"
  by (cases "ab_code body"; cases "ab_name body"; cases "ab_type body"; cases "ab_category body")
     (simp_all add: post_accounts_def createAccount_def uuidv4_def case_prod_beta Let_def
        split: option.split)

lemma createAccount_id [simp]: "acc_id (fst (createAccount db now input)) = uuid_state db"
  by (simp add: createAccount_def uuidv4_def Let_def)

lemma put_accounts_entries [simp]:
  "journalEntries (snd (put_accounts db now i body)) = journalEntries db"
  "uuid_state (snd (put_accounts db now i body)) = uuid_state db"
  by (simp_all add: put_accounts_def updateAccount_def Let_def split: option.split)

lemma delete_accounts_shape:
  "snd (delete_accounts db i)
   = (if isUsed db i then db
      else case findIndex (\<lambda>acc. acc_id acc = i) (accounts db) of
             None \<Rightarrow> db
           | Some k \<Rightarrow> db\<lparr>accounts := splice1 k (accounts db)\<rparr>)"
  by (simp add: delete_accounts_def deleteAccount_def split: option.split)

lemma post_journal_entries_shape:
  "snd (post_journal_entries db now body) = db
   \<or> (find (\<lambda>line. getAccountById db (li_accountId line) = None) (the (jb_lines body)) = None
       \<and> \<not> js_gt (js_abs (js_sub (sumDebit (the (jb_lines body)))
                             (sumCredit (the (jb_lines body))))) lit_0_01
       \<and> jb_lines body \<noteq> None
       \<and> snd (post_journal_entries db now body)
           = snd (createJournalEntry db now
               \<lparr>ei_date = the (jb_date body), ei_description = the (jb_description body),
                ei_isClosed = None\<rparr> (the (jb_lines body))))"
  by (cases "jb_date body"; cases "jb_description body"; cases "jb_lines body")
     (simp_all add: post_journal_entries_def case_prod_beta split: option.split)

lemma mcp_createJournalEntry_shape:
  "snd (mcp_createJournalEntry db now params) = db
   \<or> (\<exists>entryLines.
         resolveLines db (the (mp_lines params)) = Inr entryLines
         \<and> \<not> js_gt (js_abs (js_sub (totalOf li_debitAmount entryLines)
                               (totalOf li_creditAmount entryLines))) lit_0_01
         \<and> mp_lines params \<noteq> None
         \<and> snd (mcp_createJournalEntry db now params)
             = snd (createJournalEntry db now
                 \<lparr>ei_date = the (mp_date params), ei_description = the (mp_description params),
                  ei_isClosed = None\<rparr> entryLines))"
  by (cases "mp_date params"; cases "mp_description params"; cases "mp_lines params")
     (simp_all add: mcp_createJournalEntry_def case_prod_beta Let_def split: sum.split)

lemma put_journal_entries_shape:
  "snd (put_journal_entries db now i body)
   = (case findIndex (\<lambda>entry. entry_id entry = i) (journalEntries db) of
        None \<Rightarrow> db
      | Some k \<Rightarrow> db\<lparr>journalEntries := (journalEntries db)
          [k := (journalEntries db ! k)\<lparr>entry_date := ub_date body,
             entry_description := ub_description body, entry_updatedAt := now\<rparr>]\<rparr>)"
  by (simp add: put_journal_entries_def updateJournalEntry_def Let_def spread_def
        JournalEntry_update_eq split: option.split)

lemma delete_journal_entries_shape:
  "snd (delete_journal_entries db i)
   = (case findIndex (\<lambda>entry. entry_id entry = i) (journalEntries db) of
        None \<Rightarrow> db
      | Some k \<Rightarrow> db\<lparr>journalEntries := splice1 k (journalEntries db)\<rparr>)"
  by (simp add: delete_journal_entries_def deleteJournalEntry_def split: option.split)

lemma exampleRun:
  "map entry_id (journalEntries (run exampleOps (newDatabase 0))) = [19, 24]
   \<and> map entry_date (journalEntries (run exampleOps (newDatabase 0)))
       = [Some ''2024-02-01'', Some ''2024-01-15'']
   \<and> map entry_description (journalEntries (run exampleOps (newDatabase 0)))
       = [None, Some ''Entry'']
   \<and> map acc_id (accounts (run exampleOps (newDatabase 0))) = 0 # [2..<19]"
  by (simp add: run_def exampleOps_def newDatabase_def standardAccounts_def
        STANDARD_ACCOUNTS_def post_journal_entries_def mcp_createJournalEntry_def
        put_journal_entries_shape delete_accounts_shape isUsed_def splice1_def
        restBody_def restLine_def mcpParams_def mcpLine_def getAccountById_def
        getAccountByCode_def sumDebit_def sumCredit_def totalOf_def bothSides_def
        bothPositive_def dateRegex_def isDigit_def createJournalEntry_def uuidv4_def
        accountNameOf_def Let_def lit_0_01_eq upt_rec)

section \<open>Closed journal entries\<close>

lemma assignLineIds_fields:
  "map line_accountId (fst (assignLineIds g lines)) = map li_accountId lines"
  "map line_debitAmount (fst (assignLineIds g lines)) = map li_debitAmount lines"
  "map line_creditAmount (fst (assignLineIds g lines)) = map li_creditAmount lines"
  by (induction lines arbitrary: g) (simp_all add: case_prod_beta)

lemma createJournalEntry_accounts [simp]:
  "accounts (snd (createJournalEntry db now ei lines)) = accounts db"
  by (simp add: createJournalEntry_def case_prod_beta Let_def)

lemma createJournalEntry_entries:
  "journalEntries (snd (createJournalEntry db now ei lines))
   = journalEntries db @ [fst (createJournalEntry db now ei lines)]"
  by (simp add: createJournalEntry_def case_prod_beta Let_def)

lemma createJournalEntry_uuid: "uuid_state db \<le> uuid_state (snd (createJournalEntry db now ei lines))"
proof -
  have "g \<le> snd (assignLineIds g ls)" for g ls
    by (induction ls arbitrary: g) (auto simp: case_prod_beta uuidv4_def Let_def intro: Suc_leD order_trans)
  from this[of "Suc (uuid_state db)" lines] show ?thesis
    by (simp add: createJournalEntry_def case_prod_beta Let_def uuidv4_def)
qed

lemma createJournalEntry_isClosed [simp]:
  "entry_isClosed (fst (createJournalEntry db now ei lines)) = ei_isClosed ei"
  by (simp add: createJournalEntry_def case_prod_beta Let_def)

lemma createJournalEntry_lines:
  "map line_accountId (entry_lines (fst (createJournalEntry db now ei lines)))
     = map li_accountId lines"
  "map line_debitAmount (entry_lines (fst (createJournalEntry db now ei lines)))
     = map li_debitAmount lines"
  "map line_creditAmount (entry_lines (fst (createJournalEntry db now ei lines)))
     = map li_creditAmount lines"
  by (simp_all add: createJournalEntry_def case_prod_beta Let_def o_def assignLineIds_fields)

lemma list_all_update: "list_all P xs \<Longrightarrow> P x \<Longrightarrow> list_all P (xs[k := x])"
  using set_update_subset_insert[of xs k x] by (auto simp: list_all_iff)

lemma set_splice1: "set (splice1 k xs) \<subseteq> set xs"
  using set_take_subset[of k xs] set_drop_subset[of "Suc k" xs] by (auto simp: splice1_def)






section \<open>Sums of whole numbers are exact\<close>

lemma whole_fl: "r \<in> \<int> \<Longrightarrow> \<bar>r\<bar> < 2 ^ 53 \<Longrightarrow> fl r = Finite r"
proof -
  assume "r \<in> \<int>" and b: "\<bar>r\<bar> < 2 ^ 53"
  then obtain n where n: "r = of_int n" by (auto elim: Ints_cases)
  with b have "\<bar>rat_of_int n\<bar> < 2 ^ 53" by simp
  then have "\<bar>n\<bar> < 2 ^ 53"
    by (metis of_int_abs of_int_less_numeral_power_cancel_iff)
  then show ?thesis unfolding n by (rule fl_int)
qed

lemma wholeAmount_iff: "wholeAmount x \<longleftrightarrow> (\<exists>r. x = Some (Finite r) \<and> r \<in> \<int>)"
proof (cases x)
  case None
  then show ?thesis by simp
next
  case (Some y)
  show ?thesis
  proof (cases y)
    case (Finite r)
    have "(of_int \<lfloor>r\<rfloor> = r) = (r \<in> \<int>)"
      by (metis Ints_of_int of_int_floor_cancel Ints_cases)
    with Some Finite show ?thesis by simp
  qed (simp_all add: Some)
qed

lemma wholeAmount_value: "wholeAmount x \<Longrightarrow> x = Some (Finite (amountValue x)) \<and> amountValue x \<in> \<int>"
  by (auto simp: wholeAmount_iff)

lemma foldl_js_add_exact:
  assumes "\<forall>x\<in>set xs. x \<in> \<int>" "s \<in> \<int>" "\<bar>s\<bar> + sum_list (map abs xs) < 2 ^ 53"
  shows "foldl js_add (Finite s) (map Finite xs) = Finite (s + sum_list xs)"
  using assms
proof (induction xs arbitrary: s)
  case Nil
  then show ?case by simp
next
  case (Cons x xs)
  have nn: "0 \<le> sum_list (map abs xs)" by (rule sum_list_nonneg) auto
  from Cons.prems have x: "x \<in> \<int>" and sx: "s + x \<in> \<int>" by simp_all
  from Cons.prems(3) nn have "\<bar>s + x\<bar> < 2 ^ 53" by simp
  with sx have step: "js_add (Finite s) (Finite x) = Finite (s + x)"
    by (simp add: whole_fl)
  have "\<bar>s + x\<bar> + sum_list (map abs xs) < 2 ^ 53"
    using Cons.prems(3) by simp
  with Cons.IH[of "s + x"] Cons.prems(1) sx step show ?case
    by (simp add: add.assoc)
qed

lemma sum_list_abs: "\<bar>sum_list xs\<bar> \<le> sum_list (map abs xs)" for xs :: "rat list"
  by (induction xs) (simp_all add: abs_triangle_ineq[THEN order_trans])

lemma sum_list_filter_le:
  "(\<And>x. 0 \<le> f x) \<Longrightarrow> sum_list (map f (filter P xs)) \<le> (sum_list (map f xs) :: rat)"
  by (induction xs) (simp_all add: add_increasing)

lemma sum_list_concat_filter_le:
  "(\<And>x. 0 \<le> f x)
     \<Longrightarrow> sum_list (map f (concat (map g (filter P es)))) \<le> (sum_list (map f (concat (map g es))) :: rat)"
proof (induction es)
  case Nil
  then show ?case by simp
next
  case (Cons e es)
  have "0 \<le> sum_list (map f (g e))" by (rule sum_list_nonneg) (auto simp: Cons.prems)
  with Cons show ?case by (simp add: add_increasing)
qed

section \<open>The account balance\<close>

lemma entriesAsOf_included:
  "asOfDate \<noteq> Some [] \<Longrightarrow> entriesAsOf db asOfDate = includedEntries db asOfDate"
  by (simp add: entriesAsOf_def includedEntries_def split: option.split)

lemma fold_balanceLine:
  "fold (balanceLine account i) ls b
   = foldl js_add b (map (signedAmount (acc_type account))
                      (filter (\<lambda>line. line_accountId line = i) ls))"
  by (induction ls arbitrary: b)
     (simp_all add: balanceLine_def signedAmount_def debitNormal_def)

lemma fold_entries_balanceLine:
  "fold (\<lambda>entry. fold (balanceLine account i) (entry_lines entry)) es b
   = foldl js_add b (map (signedAmount (acc_type account))
                      (filter (\<lambda>line. line_accountId line = i)
                         (concat (map entry_lines es))))"
  by (induction es arbitrary: b) (simp_all add: fold_balanceLine)

lemma getAccountBalance_spec:
  assumes "getAccountById db accountId = Some account" "asOfDate \<noteq> Some []"
  shows "getAccountBalance db accountId asOfDate = accountBalance_spec db account asOfDate"
proof -
  from assms(1) have "acc_id account = accountId"
    by (auto simp: getAccountById_def find_Some_iff)
  with assms show ?thesis
    by (simp add: getAccountBalance_def accountBalance_spec_def referringLines_def
          fold_entries_balanceLine entriesAsOf_included)
qed

lemma set_includedEntries: "set (includedEntries db asOfDate) \<subseteq> set (journalEntries db)"
  by (auto simp: includedEntries_def split: option.split)

lemma set_referringLines: "set (referringLines db account asOfDate) \<subseteq> set (storedLines db)"
  using set_includedEntries[of db asOfDate] by (auto simp: referringLines_def storedLines_def)

lemma lineMagnitude_nonneg: "0 \<le> lineMagnitude line"
  by (simp add: lineMagnitude_def)

lemma referringLines_magnitude:
  "sum_list (map lineMagnitude (referringLines db account asOfDate)) \<le> storeMagnitude db"
proof -
  have "sum_list (map lineMagnitude (referringLines db account asOfDate))
        \<le> sum_list (map lineMagnitude (concat (map entry_lines (includedEntries db asOfDate))))"
    unfolding referringLines_def by (rule sum_list_filter_le) (rule lineMagnitude_nonneg)
  also have "\<dots> \<le> storeMagnitude db"
  proof (cases asOfDate)
    case None
    then show ?thesis by (simp add: includedEntries_def storeMagnitude_def storedLines_def)
  next
    case (Some d)
    then show ?thesis
      unfolding includedEntries_def storeMagnitude_def storedLines_def
      by (simp add: sum_list_concat_filter_le lineMagnitude_nonneg)
  qed
  finally show ?thesis .
qed

lemma signedAmount_whole:
  assumes "wholeStored line" "lineMagnitude line < 2 ^ 53"
  shows "signedAmount t line = Finite (signedValue t line)"
    and "signedValue t line \<in> \<int>" and "\<bar>signedValue t line\<bar> \<le> lineMagnitude line"
proof -
  from assms(1) obtain d c where d: "line_debitAmount line = Some (Finite d)" "d \<in> \<int>"
    and c: "line_creditAmount line = Some (Finite c)" "c \<in> \<int>"
    by (auto simp: wholeStored_def wholeAmount_iff)
  show z: "signedValue t line \<in> \<int>" using d c by (simp add: signedValue_def)
  have "\<bar>x - y\<bar> \<le> \<bar>x\<bar> + \<bar>y\<bar>" "\<bar>y - x\<bar> \<le> \<bar>x\<bar> + \<bar>y\<bar>" for x y :: rat
    by linarith+
  then show b: "\<bar>signedValue t line\<bar> \<le> lineMagnitude line"
    by (simp add: signedValue_def lineMagnitude_def)
  from b assms(2) have "\<bar>signedValue t line\<bar> < 2 ^ 53" by simp
  from whole_fl[OF z this] show "signedAmount t line = Finite (signedValue t line)"
    using d(1) c(1) by (auto simp: signedAmount_def signedValue_def split: if_splits)
qed

lemma accountBalance_spec_exact:
  assumes "wholeStore db" "storeMagnitude db < 2 ^ 53"
  shows "accountBalance_spec db account asOfDate = Finite (accountBalance_exact db account asOfDate)"
proof -
  let ?ls = "referringLines db account asOfDate"
  let ?t = "acc_type account"
  have whole: "\<forall>line\<in>set ?ls. wholeStored line"
    using assms(1) set_referringLines[of db account asOfDate]
    by (auto simp: wholeStore_def list_all_iff)
  have total: "sum_list (map lineMagnitude ?ls) < 2 ^ 53"
    using referringLines_magnitude[of db account asOfDate] assms(2) by simp
  have each: "\<forall>line\<in>set ?ls. lineMagnitude line < 2 ^ 53"
  proof
    fix line assume "line \<in> set ?ls"
    then have "lineMagnitude line \<le> sum_list (map lineMagnitude ?ls)"
      by (intro member_le_sum_list) (auto simp: lineMagnitude_nonneg)
    with total show "lineMagnitude line < 2 ^ 53" by simp
  qed
  have m: "map (signedAmount ?t) ?ls = map Finite (map (signedValue ?t) ?ls)"
    using whole each by (simp add: signedAmount_whole(1))
  have ints: "\<forall>x\<in>set (map (signedValue ?t) ?ls). x \<in> \<int>"
    using whole each by (auto simp: signedAmount_whole(2))
  have "sum_list (map abs (map (signedValue ?t) ?ls)) \<le> sum_list (map lineMagnitude ?ls)"
    unfolding map_map o_def
    by (rule sum_list_mono) (use whole each in \<open>auto simp: signedAmount_whole(3)\<close>)
  with total have bound: "\<bar>0\<bar> + sum_list (map abs (map (signedValue ?t) ?ls)) < (2::rat) ^ 53"
    by simp
  from foldl_js_add_exact[OF ints _ bound] show ?thesis
    by (simp add: accountBalance_spec_def accountBalance_exact_def m)
qed

lemma roundingDb_eval:
  "roundingDb = exampleDb\<lparr>journalEntries :=
      [\<lparr>entry_id = 3, entry_date = Some ''2024-01-15'', entry_description = Some ''Entry'',
        entry_lines =
          [\<lparr>line_id = 4, line_journalEntryId = 3, line_accountId = 0,
            line_accountName = Some ''Cash'',
            line_debitAmount = Some (Finite 9007199254740992),
            line_creditAmount = Some (Finite 0)\<rparr>,
           \<lparr>line_id = 6, line_journalEntryId = 3, line_accountId = 0,
            line_accountName = Some ''Cash'', line_debitAmount = Some (Finite 1),
            line_creditAmount = Some (Finite 0)\<rparr>,
           \<lparr>line_id = 8, line_journalEntryId = 3, line_accountId = 1,
            line_accountName = Some ''Sales'', line_debitAmount = Some (Finite 0),
            line_creditAmount = Some (Finite 9007199254740992)\<rparr>],
        entry_createdAt = 5, entry_updatedAt = 5, entry_isClosed = None\<rparr>],
      uuid_state := 10\<rparr>"
  by (simp add: roundingDb_def post_journal_entries_def example_defs getAccountById_def
        sumDebit_def sumCredit_def bothSides_def createJournalEntry_def uuidv4_def
        accountNameOf_def Let_def lit_0_01_eq fl_pow53 fl_tie)

text \<open>
  C7, as stated, fails: \<^verbatim>\<open>POST /journal-entries\<close> accepts the entry that debits cash with
  9007199254740992 and with 1 and credits sales with 9007199254740992 (the debit sum
  rounds to the credit sum). The lines on cash add up to 9007199254740993, and
  \<^verbatim>\<open>getAccountBalance\<close> returns 9007199254740992.
\<close>

theorem account_balance_is_not_the_exact_sum:
  "length (journalEntries roundingDb) = 1
   \<and> getAccountById roundingDb 0 = Some (seedAccount 0 ''100'' ''Cash'' asset ''Current assets'')
   \<and> accountBalance_exact roundingDb (seedAccount 0 ''100'' ''Cash'' asset ''Current assets'')
        None = 9007199254740993
   \<and> getAccountBalance roundingDb 0 None = Finite 9007199254740992"
  by (simp add: roundingDb_eval exampleDb_def seedAccount_def getAccountById_def
        accountBalance_exact_def referringLines_def includedEntries_def signedValue_def
        getAccountBalance_def entriesAsOf_def balanceLine_def debitNormal_def
        fl_pow53 fl_tie)

text \<open>
  C7, amended. Take a store whose lines all carry both amounts, an account that exists
  and an as-of date that is omitted or a non-empty string. Then \<^verbatim>\<open>getAccountBalance\<close> is
  the sum in double arithmetic, taken from 0 and from the first line to the last, over
  the lines of the included entries that refer to the account, of debit minus credit for
  an asset or expense account and of credit minus debit otherwise, each difference and
  each partial sum rounded to the nearest double. It is 0 when no such line exists. It is
  the exact sum when every stored amount is a whole number and the absolute amounts of
  the store add up to less than \<open>2 ^ 53\<close>.
\<close>

theorem account_balance_is_rounded_sum:
  assumes "getAccountById db accountId = Some account" "asOfDate \<noteq> Some []" "complete db"
  shows "getAccountBalance db accountId asOfDate = accountBalance_spec db account asOfDate
       \<and> (referringLines db account asOfDate = []
            \<longrightarrow> getAccountBalance db accountId asOfDate = Finite 0)
       \<and> (wholeStore db \<and> storeMagnitude db < 2 ^ 53
            \<longrightarrow> getAccountBalance db accountId asOfDate
                = Finite (accountBalance_exact db account asOfDate))"
  using getAccountBalance_spec[OF assms(1,2)] accountBalance_spec_exact[of db account asOfDate]
  by (simp add: accountBalance_spec_def)

theorem account_balance_is_rounded_sum_witness:
  "complete usedDb \<and> wholeStore usedDb \<and> storeMagnitude usedDb = 20000
   \<and> referringLines usedDb (seedAccount 2 ''500'' ''Purchases'' expense ''Cost of sales'')
        (Some ''2024-01-31'') = []
   \<and> getAccountBalance usedDb 2 (Some ''2024-01-31'') = Finite 0
   \<and> accountBalance_exact usedDb (seedAccount 1 ''400'' ''Sales'' revenue ''Sales'')
        (Some ''2024-01-31'') = 10000
   \<and> getAccountBalance usedDb 1 (Some ''2024-01-31'') = Finite 10000"
proof -
  let ?sales = "seedAccount 1 ''400'' ''Sales'' revenue ''Sales''"
  let ?purchases = "seedAccount 2 ''500'' ''Purchases'' expense ''Cost of sales''"
  have s: "getAccountById usedDb 1 = Some ?sales"
    and p: "getAccountById usedDb 2 = Some ?purchases"
    by (simp_all add: usedDb_eval exampleDb_def seedAccount_def getAccountById_def)
  have d: "Some ''2024-01-31'' \<noteq> Some []" by simp
  have c: "complete usedDb" and w: "wholeStore usedDb" and m: "storeMagnitude usedDb = 20000"
    by (simp_all add: usedDb_eval saleEntry_def complete_def wholeStore_def wholeStored_def
          storeMagnitude_def lineMagnitude_def storedLines_def)
  have r: "referringLines usedDb ?purchases (Some ''2024-01-31'') = []"
    and e: "accountBalance_exact usedDb ?sales (Some ''2024-01-31'') = 10000"
    by (simp_all add: usedDb_eval saleEntry_def seedAccount_def referringLines_def
          includedEntries_def accountBalance_exact_def signedValue_def)
  from m have lt: "storeMagnitude usedDb < 2 ^ 53" by simp
  from account_balance_is_rounded_sum[OF s d c] w lt
  have "getAccountBalance usedDb 1 (Some ''2024-01-31'')
        = Finite (accountBalance_exact usedDb ?sales (Some ''2024-01-31''))"
    by blast
  then have "getAccountBalance usedDb 1 (Some ''2024-01-31'') = Finite 10000"
    by (simp only: e)
  moreover from account_balance_is_rounded_sum[OF p d c] r
  have "getAccountBalance usedDb 2 (Some ''2024-01-31'') = Finite 0" by blast
  ultimately show ?thesis using c w m r e by simp
qed

section \<open>The trial balance\<close>

lemma fold_entries_concat:
  "fold (\<lambda>entry. fold f (entry_lines entry)) es m = fold f (concat (map entry_lines es)) m"
  by (induction es arbitrary: m) simp_all

lemma sum_list_no_match_if:
  "\<forall>b\<in>set accs. k \<noteq> f b \<Longrightarrow> sum_list (map (\<lambda>a. if k = f a then c else 0) accs) = (0::rat)"
  by (induction accs) simp_all

lemma sum_list_single_match:
  "distinct (map f accs) \<Longrightarrow> k \<in> f ` set accs
     \<Longrightarrow> sum_list (map (\<lambda>a. if k = f a then c else 0) accs) = (c::rat)"
proof (induction accs)
  case Nil
  then show ?case by simp
next
  case (Cons a accs)
  show ?case
  proof (cases "k = f a")
    case True
    from Cons.prems(1) have "f a \<notin> f ` set accs" by simp
    with True have "\<forall>b\<in>set accs. k \<noteq> f b" by (metis imageI)
    with True show ?thesis by (simp add: sum_list_no_match_if)
  next
    case False
    with Cons.prems have "distinct (map f accs)" "k \<in> f ` set accs" by simp_all
    with Cons.IH False show ?thesis by simp
  qed
qed

lemma sum_by_account:
  "distinct (map f accs) \<Longrightarrow> \<forall>l\<in>set ls. g l \<in> f ` set accs
     \<Longrightarrow> sum_list (map (\<lambda>a. sum_list (map h (filter (\<lambda>l. g l = f a) ls))) accs)
         = (sum_list (map h ls) :: rat)"
proof (induction ls)
  case Nil
  then show ?case by simp
next
  case (Cons l ls)
  have "sum_list (map (\<lambda>a. sum_list (map h (filter (\<lambda>l. g l = f a) (l # ls)))) accs)
        = sum_list (map (\<lambda>a. (if g l = f a then h l else 0)
                              + sum_list (map h (filter (\<lambda>l. g l = f a) ls))) accs)"
    by (rule arg_cong[where f = sum_list], rule map_cong) simp_all
  also have "\<dots> = sum_list (map (\<lambda>a. if g l = f a then h l else 0) accs)
                 + sum_list (map (\<lambda>a. sum_list (map h (filter (\<lambda>l. g l = f a) ls))) accs)"
    by (simp add: sum_list_addf)
  also have "\<dots> = h l + sum_list (map h ls)"
    using Cons by (simp add: sum_list_single_match)
  finally show ?case by simp
qed

lemma sum_list_concat_entries:
  "sum_list (map h (concat (map entry_lines es)))
   = (sum_list (map (\<lambda>e. sum_list (map h (entry_lines e))) es) :: rat)"
  by (induction es) simp_all

lemma sum_list_Ints: "\<forall>x\<in>set xs. x \<in> \<int> \<Longrightarrow> sum_list xs \<in> \<int>" for xs :: "rat list"
  by (induction xs) simp_all

lemma initAmounts_or0 [simp]: "or0 (initAmounts accs k) = Finite 0"
proof -
  have "or0 (fold (\<lambda>account m. m(acc_id account \<mapsto> zero)) accs m k) = Finite 0"
    if "or0 (m k) = Finite 0" for m
    using that by (induction accs arbitrary: m) simp_all
  from this[of Map.empty] show ?thesis by (simp add: initAmounts_def)
qed

lemma fst_tbLine:
  "fst (tbLine l m)
   = (fst m)(line_accountId l \<mapsto>
       js_add (or0 (fst m (line_accountId l))) (toNumber (line_debitAmount l)))"
  by (simp add: tbLine_def case_prod_beta Let_def)

lemma snd_tbLine:
  "snd (tbLine l m)
   = (snd m)(line_accountId l \<mapsto>
       js_add (or0 (snd m (line_accountId l))) (toNumber (line_creditAmount l)))"
  by (simp add: tbLine_def case_prod_beta Let_def)

lemma fold_tbLine_exact:
  fixes proj :: "amounts \<times> amounts \<Rightarrow> amounts" and amount :: "JournalLine \<Rightarrow> number option"
  assumes upd: "\<And>l m. proj (tbLine l m)
                  = (proj m)(line_accountId l \<mapsto>
                      js_add (or0 (proj m (line_accountId l))) (toNumber (amount l)))"
    and whole: "\<forall>l\<in>set ls. wholeAmount (amount l)"
    and init: "\<forall>k. or0 (proj m k) = Finite (a k) \<and> a k \<in> \<int> \<and> \<bar>a k\<bar> \<le> B"
    and bound: "B + sum_list (map (\<lambda>l. \<bar>amountValue (amount l)\<bar>) ls) < 2 ^ 53"
  shows "or0 (proj (fold tbLine ls m) k)
         = Finite (a k + sum_list (map (\<lambda>l. amountValue (amount l))
                                    (filter (\<lambda>l. line_accountId l = k) ls)))"
  using whole init bound
proof (induction ls arbitrary: m a B)
  case Nil
  then show ?case by simp
next
  case (Cons l ls)
  define j where "j = line_accountId l"
  from Cons.prems(1) obtain d where d: "amount l = Some (Finite d)" "d \<in> \<int>"
    by (auto simp: wholeAmount_iff)
  define a' where "a' = a(j := a j + d)"
  have nn: "0 \<le> sum_list (map (\<lambda>l. \<bar>amountValue (amount l)\<bar>) ls)"
    by (rule sum_list_nonneg) auto
  from Cons.prems(2) have aj: "or0 (proj m j) = Finite (a j)" "a j \<in> \<int>" "\<bar>a j\<bar> \<le> B"
    by simp_all
  have le: "\<bar>a j + d\<bar> \<le> B + \<bar>d\<bar>" using aj(3) by linarith
  with Cons.prems(3) nn d(1) have "\<bar>a j + d\<bar> < 2 ^ 53" by simp
  with aj(2) d(2) have "fl (a j + d) = Finite (a j + d)" by (simp add: whole_fl)
  then have new: "proj (tbLine l m) = (proj m)(j \<mapsto> Finite (a j + d))"
    by (simp add: upd j_def[symmetric] aj(1) d(1))
  have init': "\<forall>k. or0 (proj (tbLine l m) k) = Finite (a' k) \<and> a' k \<in> \<int>
                    \<and> \<bar>a' k\<bar> \<le> B + \<bar>d\<bar>"
  proof
    fix k
    show "or0 (proj (tbLine l m) k) = Finite (a' k) \<and> a' k \<in> \<int> \<and> \<bar>a' k\<bar> \<le> B + \<bar>d\<bar>"
    proof (cases "k = j")
      case True
      with new le aj(2) d(2) show ?thesis by (simp add: a'_def)
    next
      case False
      from Cons.prems(2) have "or0 (proj m k) = Finite (a k)" "a k \<in> \<int>" "\<bar>a k\<bar> \<le> B"
        by simp_all
      with False new show ?thesis by (simp add: a'_def)
    qed
  qed
  have bound': "B + \<bar>d\<bar> + sum_list (map (\<lambda>l. \<bar>amountValue (amount l)\<bar>) ls) < 2 ^ 53"
    using Cons.prems(3) d(1) by simp
  from Cons.prems(1) have whole': "\<forall>l\<in>set ls. wholeAmount (amount l)" by simp
  from Cons.IH[OF whole' init' bound']
  have "or0 (proj (fold tbLine ls (tbLine l m)) k)
        = Finite (a' k + sum_list (map (\<lambda>l. amountValue (amount l))
                                     (filter (\<lambda>l. line_accountId l = k) ls)))" .
  then show ?case by (simp add: a'_def j_def d(1))
qed

lemma fold_tbTotals:
  "fold (tbTotals maps) accs (td, tc)
   = (foldl js_add td (map (\<lambda>a. or0 (fst maps (acc_id a))) accs),
      foldl js_add tc (map (\<lambda>a. or0 (snd maps (acc_id a))) accs))"
  by (induction accs arbitrary: td tc) (simp_all add: tbTotals_def)

lemma totals_exact:
  fixes amount :: "JournalLine \<Rightarrow> number option"
  assumes dist: "distinct (map acc_id accs)"
    and refs: "\<forall>l\<in>set ls. line_accountId l \<in> acc_id ` set accs"
    and whole: "\<forall>l\<in>set ls. wholeAmount (amount l)"
    and bound: "sum_list (map (\<lambda>l. \<bar>amountValue (amount l)\<bar>) ls) < 2 ^ 53"
    and key: "\<And>k. or0 (f k)
               = Finite (sum_list (map (\<lambda>l. amountValue (amount l))
                                    (filter (\<lambda>l. line_accountId l = k) ls)))"
  shows "foldl js_add zero (map (\<lambda>a. or0 (f (acc_id a))) accs)
         = Finite (sum_list (map (\<lambda>l. amountValue (amount l)) ls))"
proof -
  let ?v = "\<lambda>l. amountValue (amount l)"
  let ?D = "\<lambda>k. sum_list (map ?v (filter (\<lambda>l. line_accountId l = k) ls))"
  have vint: "?v l \<in> \<int>" if "l \<in> set ls" for l
    using whole that by (auto simp: wholeAmount_iff)
  have ints: "\<forall>x\<in>set (map (\<lambda>a. ?D (acc_id a)) accs). x \<in> \<int>"
    by (auto intro!: sum_list_Ints vint)
  have "sum_list (map abs (map (\<lambda>a. ?D (acc_id a)) accs))
        \<le> sum_list (map (\<lambda>a. sum_list (map (\<lambda>l. \<bar>?v l\<bar>)
                                        (filter (\<lambda>l. line_accountId l = acc_id a) ls))) accs)"
    unfolding map_map o_def
  proof (rule sum_list_mono)
    fix a
    have "\<bar>sum_list (map ?v (filter (\<lambda>l. line_accountId l = acc_id a) ls))\<bar>
          \<le> sum_list (map abs (map ?v (filter (\<lambda>l. line_accountId l = acc_id a) ls)))"
      by (rule sum_list_abs)
    then show "\<bar>?D (acc_id a)\<bar>
               \<le> sum_list (map (\<lambda>l. \<bar>?v l\<bar>) (filter (\<lambda>l. line_accountId l = acc_id a) ls))"
      by (simp add: o_def)
  qed
  also have "\<dots> = sum_list (map (\<lambda>l. \<bar>?v l\<bar>) ls)"
    by (rule sum_by_account[OF dist refs])
  finally have b: "\<bar>0\<bar> + sum_list (map abs (map (\<lambda>a. ?D (acc_id a)) accs)) < (2::rat) ^ 53"
    using bound by simp
  have eq: "map (\<lambda>a. or0 (f (acc_id a))) accs = map Finite (map (\<lambda>a. ?D (acc_id a)) accs)"
    by (simp add: key)
  have "foldl js_add zero (map Finite (map (\<lambda>a. ?D (acc_id a)) accs))
        = Finite (0 + sum_list (map (\<lambda>a. ?D (acc_id a)) accs))"
    by (rule foldl_js_add_exact[OF ints _ b]) simp
  then have "foldl js_add zero (map (\<lambda>a. or0 (f (acc_id a))) accs)
        = Finite (sum_list (map (\<lambda>a. ?D (acc_id a)) accs))"
    by (simp only: eq add_0)
  also have "sum_list (map (\<lambda>a. ?D (acc_id a)) accs) = sum_list (map ?v ls)"
    by (rule sum_by_account[OF dist refs])
  finally show ?thesis .
qed

lemma abs_le_lineMagnitude:
  "\<bar>amountValue (line_debitAmount l)\<bar> \<le> lineMagnitude l"
  "\<bar>amountValue (line_creditAmount l)\<bar> \<le> lineMagnitude l"
  by (simp_all add: lineMagnitude_def)

lemma getTrialBalance_exact:
  assumes dist: "distinct (map acc_id (accounts db))"
    and refs: "\<forall>l\<in>set (concat (map entry_lines (entriesAsOf db asOfDate))).
                 line_accountId l \<in> acc_id ` set (accounts db)"
    and whole: "\<forall>l\<in>set (concat (map entry_lines (entriesAsOf db asOfDate))). wholeStored l"
    and bound: "sum_list (map lineMagnitude (concat (map entry_lines (entriesAsOf db asOfDate))))
                  < 2 ^ 53"
  shows "totalDebit (getTrialBalance db asOfDate)
           = Finite (sum_list (map entryDebit (entriesAsOf db asOfDate)))"
    and "totalCredit (getTrialBalance db asOfDate)
           = Finite (sum_list (map entryCredit (entriesAsOf db asOfDate)))"
proof -
  let ?ls = "concat (map entry_lines (entriesAsOf db asOfDate))"
  let ?init = "(initAmounts (accounts db), initAmounts (accounts db))"
  let ?maps = "fold tbLine ?ls ?init"
  have maps: "fold (\<lambda>entry. fold tbLine (entry_lines entry)) (entriesAsOf db asOfDate) ?init
              = ?maps"
    by (rule fold_entries_concat)
  have wd: "\<forall>l\<in>set ?ls. wholeAmount (line_debitAmount l)"
    and wc: "\<forall>l\<in>set ?ls. wholeAmount (line_creditAmount l)"
    using whole by (simp_all add: wholeStored_def)
  have "sum_list (map (\<lambda>l. \<bar>amountValue (line_debitAmount l)\<bar>) ?ls)
        \<le> sum_list (map lineMagnitude ?ls)"
    by (rule sum_list_mono) (rule abs_le_lineMagnitude)
  with bound have bd: "sum_list (map (\<lambda>l. \<bar>amountValue (line_debitAmount l)\<bar>) ?ls) < 2 ^ 53"
    by simp
  have "sum_list (map (\<lambda>l. \<bar>amountValue (line_creditAmount l)\<bar>) ?ls)
        \<le> sum_list (map lineMagnitude ?ls)"
    by (rule sum_list_mono) (rule abs_le_lineMagnitude)
  with bound have bc: "sum_list (map (\<lambda>l. \<bar>amountValue (line_creditAmount l)\<bar>) ?ls) < 2 ^ 53"
    by simp
  have kd: "or0 (fst ?maps k)
            = Finite (sum_list (map (\<lambda>l. amountValue (line_debitAmount l))
                                 (filter (\<lambda>l. line_accountId l = k) ?ls)))" for k
    using fold_tbLine_exact[where proj = fst and amount = line_debitAmount and a = "\<lambda>k. 0"
        and B = 0 and m = ?init and ls = ?ls and k = k, OF fst_tbLine wd] bd
    by simp
  have kc: "or0 (snd ?maps k)
            = Finite (sum_list (map (\<lambda>l. amountValue (line_creditAmount l))
                                 (filter (\<lambda>l. line_accountId l = k) ?ls)))" for k
    using fold_tbLine_exact[where proj = snd and amount = line_creditAmount and a = "\<lambda>k. 0"
        and B = 0 and m = ?init and ls = ?ls and k = k, OF snd_tbLine wc] bc
    by simp
  have d: "foldl js_add zero (map (\<lambda>a. or0 (fst ?maps (acc_id a))) (accounts db))
           = Finite (sum_list (map (\<lambda>l. amountValue (line_debitAmount l)) ?ls))"
    by (rule totals_exact[OF dist refs wd bd kd])
  have c: "foldl js_add zero (map (\<lambda>a. or0 (snd ?maps (acc_id a))) (accounts db))
           = Finite (sum_list (map (\<lambda>l. amountValue (line_creditAmount l)) ?ls))"
    by (rule totals_exact[OF dist refs wc bc kc])
  show "totalDebit (getTrialBalance db asOfDate)
          = Finite (sum_list (map entryDebit (entriesAsOf db asOfDate)))"
    unfolding getTrialBalance_def Let_def maps fold_tbTotals
    by (simp add: d sum_list_concat_entries entryDebit_def[abs_def])
  show "totalCredit (getTrialBalance db asOfDate)
          = Finite (sum_list (map entryCredit (entriesAsOf db asOfDate)))"
    unfolding getTrialBalance_def Let_def maps fold_tbTotals
    by (simp add: c sum_list_concat_entries entryCredit_def[abs_def])
qed

section \<open>An accepted entry of whole amounts is exactly balanced\<close>

lemma foldl_amounts_exact:
  fixes amount :: "'a \<Rightarrow> number option" and g :: "number option \<Rightarrow> number"
  assumes g: "\<And>r. g (Some (Finite r)) = Finite r"
    and whole: "\<forall>l\<in>set ls. wholeAmount (amount l)"
    and bound: "sum_list (map (\<lambda>l. \<bar>amountValue (amount l)\<bar>) ls) < 2 ^ 53"
  shows "foldl (\<lambda>sum line. js_add sum (g (amount line))) zero ls
         = Finite (sum_list (map (\<lambda>l. amountValue (amount l)) ls))"
proof -
  let ?v = "\<lambda>l. amountValue (amount l)"
  have ints: "\<forall>x\<in>set (map ?v ls). x \<in> \<int>"
    using whole by (auto simp: wholeAmount_iff)
  from bound have b: "\<bar>0\<bar> + sum_list (map abs (map ?v ls)) < (2::rat) ^ 53"
    by (simp add: o_def)
  have eq: "map (\<lambda>l. g (amount l)) ls = map Finite (map ?v ls)"
    using whole by (auto simp: wholeAmount_iff g)
  have "foldl (\<lambda>sum line. js_add sum (g (amount line))) zero ls
        = foldl js_add zero (map (\<lambda>l. g (amount l)) ls)"
    by (simp add: foldl_map)
  also have "\<dots> = foldl js_add zero (map Finite (map ?v ls))"
    by (simp only: eq)
  also have "\<dots> = Finite (0 + sum_list (map ?v ls))"
    by (rule foldl_js_add_exact[OF ints _ b]) simp
  finally show ?thesis by simp
qed

lemma balance_check_exact:
  assumes "D \<in> \<int>" "C \<in> \<int>" "\<bar>D\<bar> + \<bar>C\<bar> < 2 ^ 53"
    and "\<not> js_gt (js_abs (js_sub (Finite D) (Finite C))) lit_0_01"
  shows "D = C"
proof (rule ccontr)
  assume ne: "D \<noteq> C"
  from assms(1,2) have z: "D - C \<in> \<int>" by simp
  have "\<bar>D - C\<bar> \<le> \<bar>D\<bar> + \<bar>C\<bar>" by linarith
  with assms(3) have "\<bar>D - C\<bar> < 2 ^ 53" by simp
  with z have "fl (D - C) = Finite (D - C)" by (rule whole_fl)
  with assms(4) have le: "\<bar>D - C\<bar> \<le> 5764607523034235 / 576460752303423488"
    by (simp add: lit_0_01_eq)
  from ne have "D - C \<noteq> 0" by simp
  with z have "1 \<le> \<bar>D - C\<bar>" by (rule Ints_nonzero_abs_ge1)
  with le show False by simp
qed

lemma sum_list_Ints_map: "\<forall>x\<in>set xs. f x \<in> \<int> \<Longrightarrow> sum_list (map f xs) \<in> \<int>"
  for f :: "'a \<Rightarrow> rat"
  by (rule sum_list_Ints) auto

lemma accepted_balanced:
  fixes d c :: "'a \<Rightarrow> number option" and g :: "number option \<Rightarrow> number"
  assumes g: "\<And>r. g (Some (Finite r)) = Finite r"
    and whole: "\<forall>l\<in>set ls. wholeAmount (d l) \<and> wholeAmount (c l)"
    and bound: "sum_list (map (\<lambda>l. \<bar>amountValue (d l)\<bar> + \<bar>amountValue (c l)\<bar>) ls) < 2 ^ 53"
    and ok: "\<not> js_gt (js_abs (js_sub
                 (foldl (\<lambda>sum line. js_add sum (g (d line))) zero ls)
                 (foldl (\<lambda>sum line. js_add sum (g (c line))) zero ls))) lit_0_01"
  shows "sum_list (map (\<lambda>l. amountValue (d l)) ls) = sum_list (map (\<lambda>l. amountValue (c l)) ls)"
proof -
  let ?D = "sum_list (map (\<lambda>l. amountValue (d l)) ls)"
  let ?C = "sum_list (map (\<lambda>l. amountValue (c l)) ls)"
  let ?AD = "sum_list (map (\<lambda>l. \<bar>amountValue (d l)\<bar>) ls)"
  let ?AC = "sum_list (map (\<lambda>l. \<bar>amountValue (c l)\<bar>) ls)"
  have split: "sum_list (map (\<lambda>l. \<bar>amountValue (d l)\<bar> + \<bar>amountValue (c l)\<bar>) ls) = ?AD + ?AC"
    by (rule sum_list_addf)
  have nn: "0 \<le> ?AD" "0 \<le> ?AC" by (rule sum_list_nonneg, auto)+
  from bound split nn have bd: "?AD < 2 ^ 53" and bc: "?AC < 2 ^ 53" by simp_all
  from whole have wd: "\<forall>l\<in>set ls. wholeAmount (d l)" and wc: "\<forall>l\<in>set ls. wholeAmount (c l)"
    by simp_all
  have D: "foldl (\<lambda>sum line. js_add sum (g (d line))) zero ls = Finite ?D"
    by (rule foldl_amounts_exact[OF g wd bd])
  have C: "foldl (\<lambda>sum line. js_add sum (g (c line))) zero ls = Finite ?C"
    by (rule foldl_amounts_exact[OF g wc bc])
  have iD: "?D \<in> \<int>" using wd by (intro sum_list_Ints_map) (auto simp: wholeAmount_iff)
  have iC: "?C \<in> \<int>" using wc by (intro sum_list_Ints_map) (auto simp: wholeAmount_iff)
  have "\<bar>?D\<bar> \<le> ?AD" using sum_list_abs[of "map (\<lambda>l. amountValue (d l)) ls"] by (simp add: o_def)
  moreover have "\<bar>?C\<bar> \<le> ?AC" using sum_list_abs[of "map (\<lambda>l. amountValue (c l)) ls"] by (simp add: o_def)
  ultimately have b: "\<bar>?D\<bar> + \<bar>?C\<bar> < 2 ^ 53" using bound split by simp
  have "\<not> js_gt (js_abs (js_sub (Finite ?D) (Finite ?C))) lit_0_01"
    using ok unfolding D C .
  with iD iC b show ?thesis by (rule balance_check_exact)
qed

lemma amountValue_or0 [simp]: "amountValue (Some (or0 x)) = amountValue x"
proof (cases x)
  case None
  then show ?thesis by simp
next
  case (Some y)
  then show ?thesis by (cases y) simp_all
qed

lemma resolveLines_whole:
  "resolveLines db mlines = Inr entryLines \<Longrightarrow> list_all wholeToolLine mlines
     \<Longrightarrow> list_all wholeLine entryLines"
proof (induction mlines arbitrary: entryLines)
  case Nil
  then show ?case by simp
next
  case (Cons m mlines)
  from Cons.prems(1) obtain a :: Account and rest where rest: "resolveLines db mlines = Inr rest"
    and el: "entryLines = \<lparr>li_accountId = acc_id a,
                             li_debitAmount = Some (or0 (ml_debitAmount m)),
                             li_creditAmount = Some (or0 (ml_creditAmount m))\<rparr> # rest"
    by (auto split: option.splits sum.splits)
  from Cons.prems(2) Cons.IH[OF rest] el show ?case
    by (simp add: wholeLine_def wholeToolLine_def)
qed

lemma resolveLines_magnitude:
  "resolveLines db mlines = Inr entryLines
     \<Longrightarrow> sum_list (map inputMagnitude entryLines) = sum_list (map toolMagnitude mlines)"
proof (induction mlines arbitrary: entryLines)
  case Nil
  then show ?case by simp
next
  case (Cons m mlines)
  from Cons.prems(1) obtain a :: Account and rest where rest: "resolveLines db mlines = Inr rest"
    and el: "entryLines = \<lparr>li_accountId = acc_id a,
                             li_debitAmount = Some (or0 (ml_debitAmount m)),
                             li_creditAmount = Some (or0 (ml_creditAmount m))\<rparr> # rest"
    by (auto split: option.splits sum.splits)
  from Cons.IH[OF rest] el show ?case
    by (simp add: inputMagnitude_def toolMagnitude_def)
qed

lemma accounts_resolve:
  "find (\<lambda>line. getAccountById db (li_accountId line) = None) lines = None
     \<Longrightarrow> \<forall>l\<in>set lines. li_accountId l \<in> acc_id ` set (accounts db)"
proof
  fix l assume "find (\<lambda>line. getAccountById db (li_accountId line) = None) lines = None"
    and "l \<in> set lines"
  then have "\<exists>a\<in>set (accounts db). acc_id a = li_accountId l"
    by (auto simp: find_None_iff getAccountById_def)
  then show "li_accountId l \<in> acc_id ` set (accounts db)"
    by (metis imageI)
qed

lemma resolveLines_accounts:
  "resolveLines db mlines = Inr entryLines
     \<Longrightarrow> \<forall>l\<in>set entryLines. li_accountId l \<in> acc_id ` set (accounts db)"
proof (induction mlines arbitrary: entryLines)
  case Nil
  then show ?case by simp
next
  case (Cons m mlines)
  from Cons.prems obtain a rest where a: "getAccountByCode db (ml_accountCode m) = Some a"
    and rest: "resolveLines db mlines = Inr rest"
    and el: "entryLines = \<lparr>li_accountId = acc_id a,
                             li_debitAmount = Some (or0 (ml_debitAmount m)),
                             li_creditAmount = Some (or0 (ml_creditAmount m))\<rparr> # rest"
    by (auto split: option.splits sum.splits)
  from a have "a \<in> set (accounts db)"
    by (auto simp: getAccountByCode_def find_Some_iff)
  then have "acc_id a \<in> acc_id ` set (accounts db)" by (rule imageI)
  with Cons.IH[OF rest] el show ?case by simp
qed

section \<open>The invariant of the store\<close>

lemma consistent_iff:
  "consistent db \<longleftrightarrow>
     distinct (map acc_id (accounts db))
     \<and> (\<forall>x\<in>set (map acc_id (accounts db)). x < uuid_state db)
     \<and> length STANDARD_ACCOUNTS \<le> uuid_state db
     \<and> (\<forall>ls\<in>set (map entry_lines (journalEntries db)). \<forall>l\<in>set ls.
           line_accountId l \<in> set (map acc_id (accounts db)) \<and> wholeStored l)
     \<and> (\<forall>ls\<in>set (map entry_lines (journalEntries db)).
           sum_list (map (\<lambda>l. amountValue (line_debitAmount l)) ls)
           = sum_list (map (\<lambda>l. amountValue (line_creditAmount l)) ls))"
  by (auto simp: consistent_def list_all_iff storedLines_def wholeStore_def entryDebit_def
        entryCredit_def)

lemma storeMagnitude_alt:
  "storeMagnitude db
   = sum_list (map lineMagnitude (concat (map entry_lines (journalEntries db))))"
  by (simp add: storeMagnitude_def storedLines_def)

lemma consistent_frame:
  assumes "consistent db" "map acc_id (accounts db') = map acc_id (accounts db)"
    and "map entry_lines (journalEntries db') = map entry_lines (journalEntries db)"
    and "uuid_state db' = uuid_state db"
  shows "consistent db'"
  using assms by (simp add: consistent_iff)

lemma storeMagnitude_frame:
  "map entry_lines (journalEntries db') = map entry_lines (journalEntries db)
     \<Longrightarrow> storeMagnitude db' = storeMagnitude db"
  by (simp add: storeMagnitude_alt)

lemma map_eq_all: "map f xs = map g ys \<Longrightarrow> \<forall>y\<in>set ys. P (g y) \<Longrightarrow> \<forall>x\<in>set xs. P (f x)"
proof -
  assume m: "map f xs = map g ys" and p: "\<forall>y\<in>set ys. P (g y)"
  from m have "set (map f xs) = set (map g ys)" by (rule arg_cong)
  then have "f ` set xs = g ` set ys" by simp
  with p show ?thesis by (metis imageE imageI)
qed

lemma map_eq_sum:
  "map f xs = map g ys \<Longrightarrow> sum_list (map (\<lambda>x. h (f x)) xs) = sum_list (map (\<lambda>y. h (g y)) ys)"
proof -
  assume m: "map f xs = map g ys"
  have "map (\<lambda>x. h (f x)) xs = map h (map f xs)" by simp
  also have "\<dots> = map h (map g ys)" by (simp only: m)
  also have "\<dots> = map (\<lambda>y. h (g y)) ys" by simp
  finally show ?thesis by (rule arg_cong)
qed

lemma created_magnitude:
  "sum_list (map lineMagnitude (entry_lines (fst (createJournalEntry db now ei lines))))
   = sum_list (map inputMagnitude lines)"
proof -
  let ?e = "fst (createJournalEntry db now ei lines)"
  have "sum_list (map lineMagnitude (entry_lines ?e))
        = sum_list (map (\<lambda>l. \<bar>amountValue (line_debitAmount l)\<bar>) (entry_lines ?e))
          + sum_list (map (\<lambda>l. \<bar>amountValue (line_creditAmount l)\<bar>) (entry_lines ?e))"
    unfolding lineMagnitude_def[abs_def] by (rule sum_list_addf)
  also have "\<dots> = sum_list (map (\<lambda>l. \<bar>amountValue (li_debitAmount l)\<bar>) lines)
          + sum_list (map (\<lambda>l. \<bar>amountValue (li_creditAmount l)\<bar>) lines)"
    using map_eq_sum[OF createJournalEntry_lines(2), of "\<lambda>x. \<bar>amountValue x\<bar>" db now ei lines]
          map_eq_sum[OF createJournalEntry_lines(3), of "\<lambda>x. \<bar>amountValue x\<bar>" db now ei lines]
    by simp
  also have "\<dots> = sum_list (map inputMagnitude lines)"
    unfolding inputMagnitude_def[abs_def] by (rule sum_list_addf[symmetric])
  finally show ?thesis .
qed

lemma createJournalEntry_magnitude:
  "storeMagnitude (snd (createJournalEntry db now ei lines))
   = storeMagnitude db + sum_list (map inputMagnitude lines)"
  by (simp add: storeMagnitude_alt createJournalEntry_entries created_magnitude)

lemma createJournalEntry_consistent:
  assumes "consistent db"
    and refs: "\<forall>l\<in>set lines. li_accountId l \<in> acc_id ` set (accounts db)"
    and whole: "list_all wholeLine lines"
    and bal: "sum_list (map (\<lambda>l. amountValue (li_debitAmount l)) lines)
              = sum_list (map (\<lambda>l. amountValue (li_creditAmount l)) lines)"
  shows "consistent (snd (createJournalEntry db now ei lines))"
proof -
  let ?e = "fst (createJournalEntry db now ei lines)"
  from refs have "\<forall>l\<in>set lines. li_accountId l \<in> set (map acc_id (accounts db))" by simp
  from map_eq_all[OF createJournalEntry_lines(1) this]
  have r: "\<forall>l\<in>set (entry_lines ?e). line_accountId l \<in> set (map acc_id (accounts db))" .
  from whole have "\<forall>l\<in>set lines. wholeAmount (li_debitAmount l)"
    and "\<forall>l\<in>set lines. wholeAmount (li_creditAmount l)"
    by (simp_all add: list_all_iff wholeLine_def)
  from map_eq_all[OF createJournalEntry_lines(2) this(1)]
       map_eq_all[OF createJournalEntry_lines(3) this(2)]
  have w: "\<forall>l\<in>set (entry_lines ?e). wholeStored l"
    by (simp add: wholeStored_def)
  have b: "sum_list (map (\<lambda>l. amountValue (line_debitAmount l)) (entry_lines ?e))
           = sum_list (map (\<lambda>l. amountValue (line_creditAmount l)) (entry_lines ?e))"
    using map_eq_sum[OF createJournalEntry_lines(2), of amountValue db now ei lines]
          map_eq_sum[OF createJournalEntry_lines(3), of amountValue db now ei lines] bal
    by simp
  from assms(1) have c: "distinct (map acc_id (accounts db))"
      "\<forall>x\<in>set (map acc_id (accounts db)). x < uuid_state db"
      "length STANDARD_ACCOUNTS \<le> uuid_state db"
      "\<forall>ls\<in>set (map entry_lines (journalEntries db)). \<forall>l\<in>set ls.
           line_accountId l \<in> set (map acc_id (accounts db)) \<and> wholeStored l"
      "\<forall>ls\<in>set (map entry_lines (journalEntries db)).
           sum_list (map (\<lambda>l. amountValue (line_debitAmount l)) ls)
           = sum_list (map (\<lambda>l. amountValue (line_creditAmount l)) ls)"
    unfolding consistent_iff by blast+
  from c(2,3) createJournalEntry_uuid[of db now ei lines]
  have u: "\<forall>x\<in>set (map acc_id (accounts db)).
             x < uuid_state (snd (createJournalEntry db now ei lines))"
      "length STANDARD_ACCOUNTS \<le> uuid_state (snd (createJournalEntry db now ei lines))"
    by (auto intro: less_le_trans)
  show ?thesis
    unfolding consistent_iff createJournalEntry_entries createJournalEntry_accounts
    using c(1,4,5) u r w b by simp
qed

lemma distinct_splice1: "distinct xs \<Longrightarrow> distinct (splice1 k xs)"
  using set_take_disj_set_drop_if_distinct[of xs k "Suc k"]
  by (simp add: splice1_def)

lemma member_splice1:
  "k < length xs \<Longrightarrow> x \<in> set xs \<Longrightarrow> x \<noteq> xs ! k \<Longrightarrow> x \<in> set (splice1 k xs)"
proof -
  assume k: "k < length xs" and x: "x \<in> set xs" "x \<noteq> xs ! k"
  from k have "xs = take k xs @ xs ! k # drop (Suc k) xs" by (rule id_take_nth_drop)
  then have "set xs = set (take k xs @ xs ! k # drop (Suc k) xs)" by (rule arg_cong)
  also have "\<dots> = set (take k xs) \<union> {xs ! k} \<union> set (drop (Suc k) xs)" by simp
  finally have "x \<in> set (take k xs) \<union> {xs ! k} \<union> set (drop (Suc k) xs)"
    using x(1) by simp
  with x(2) show ?thesis by (simp add: splice1_def)
qed

lemma map_splice1: "map f (splice1 k xs) = splice1 k (map f xs)"
  by (simp add: splice1_def take_map drop_map)

lemma sum_concat_splice1_le:
  assumes "\<And>x. 0 \<le> f x"
  shows "sum_list (map f (concat (splice1 k xss))) \<le> (sum_list (map f (concat xss)) :: rat)"
proof (cases "k < length xss")
  case True
  then have "xss = take k xss @ xss ! k # drop (Suc k) xss" by (rule id_take_nth_drop)
  then have "sum_list (map f (concat xss))
             = sum_list (map f (concat (take k xss @ xss ! k # drop (Suc k) xss)))"
    by (rule arg_cong)
  also have "\<dots> = sum_list (map f (concat (take k xss))) + sum_list (map f (xss ! k))
               + sum_list (map f (concat (drop (Suc k) xss)))"
    by simp
  finally have e: "sum_list (map f (concat xss))
             = sum_list (map f (concat (take k xss))) + sum_list (map f (xss ! k))
               + sum_list (map f (concat (drop (Suc k) xss)))" .
  have "0 \<le> sum_list (map f (xss ! k))"
    by (rule sum_list_nonneg) (auto simp: assms)
  with e show ?thesis by (simp add: splice1_def)
next
  case False
  then show ?thesis by (simp add: splice1_def)
qed

lemma standard_ids: "map acc_id (standardAccounts now) = [0..<19]"
  by (simp add: standardAccounts_def STANDARD_ACCOUNTS_def upt_rec)

lemma standard_length: "length STANDARD_ACCOUNTS = 19"
  by (simp add: STANDARD_ACCOUNTS_def)

lemma newDatabase_consistent: "consistent (newDatabase now)"
  by (simp add: consistent_iff newDatabase_def standard_ids standard_length)

lemma submitted_nonneg: "0 \<le> submitted op"
proof (cases op)
  case (PostJournalEntry now body)
  then show ?thesis
    by (auto simp: inputMagnitude_def split: option.split intro!: sum_list_nonneg)
next
  case (CreateJournalEntryTool now params)
  then show ?thesis
    by (auto simp: toolMagnitude_def split: option.split intro!: sum_list_nonneg)
qed simp_all

lemma storeMagnitude_nonneg: "0 \<le> storeMagnitude db"
  unfolding storeMagnitude_def by (rule sum_list_nonneg) (auto simp: lineMagnitude_nonneg)

section \<open>Every operation keeps the invariant\<close>

lemma step_consistent:
  assumes c: "consistent db" and w: "wholeAmounts op" and s: "submitted op < 2 ^ 53"
  shows "consistent (step db op)"
proof (cases op)
  case (PostAccount now body)
  let ?a = "fst (createAccount db now
              \<lparr>in_code = the (ab_code body), in_name = ab_name body,
               in_type = the (ab_type body), in_category = ab_category body,
               in_parentId = ab_parentId body\<rparr>)"
  have "consistent (db\<lparr>accounts := accounts db @ [?a], uuid_state := Suc (uuid_state db)\<rparr>)"
    using c by (auto simp: consistent_iff)
  with c post_accounts_shape[of db now body] PostAccount show ?thesis by auto
next
  case (PutAccount now i body)
  have "map acc_id (accounts (snd (put_accounts db now i body))) = map acc_id (accounts db)"
    by (rule put_accounts_frame) simp
  from consistent_frame[OF c this] PutAccount show ?thesis by simp
next
  case (DeleteAccount i)
  show ?thesis
  proof (cases "isUsed db i")
    case True
    with c DeleteAccount show ?thesis by (simp add: delete_accounts_shape)
  next
    case False
    show ?thesis
    proof (cases "findIndex (\<lambda>acc. acc_id acc = i) (accounts db)")
      case None
      with c False DeleteAccount show ?thesis by (simp add: delete_accounts_shape)
    next
      case (Some k)
      from findIndex_Some[OF Some] have k: "k < length (map acc_id (accounts db))"
        and ik: "map acc_id (accounts db) ! k = i"
        by simp_all
      from False have unused: "\<forall>ls\<in>set (map entry_lines (journalEntries db)).
                                 \<forall>l\<in>set ls. line_accountId l \<noteq> i"
        by (auto simp: isUsed_iff)
      have sub: "set (splice1 k (map acc_id (accounts db))) \<subseteq> set (map acc_id (accounts db))"
        by (rule set_splice1)
      have mem: "x \<in> set (splice1 k (map acc_id (accounts db)))"
        if "x \<in> set (map acc_id (accounts db))" "x \<noteq> i" for x
        using member_splice1[OF k that(1)] that(2) ik by simp
      have "consistent (db\<lparr>accounts := splice1 k (accounts db)\<rparr>)"
        unfolding consistent_iff
        using c[unfolded consistent_iff] sub mem unused
        by (auto simp: map_splice1 distinct_splice1)
      with False Some DeleteAccount show ?thesis by (simp add: delete_accounts_shape)
    qed
  qed
next
  case (PostJournalEntry now body)
  show ?thesis
  proof (cases "snd (post_journal_entries db now body) = db")
    case True
    with c PostJournalEntry show ?thesis by simp
  next
    case False
    let ?lines = "the (jb_lines body)"
    from False post_journal_entries_shape[of db now body]
    have ok: "find (\<lambda>line. getAccountById db (li_accountId line) = None) ?lines = None"
        "\<not> js_gt (js_abs (js_sub (sumDebit ?lines) (sumCredit ?lines))) lit_0_01"
        "jb_lines body \<noteq> None"
      and r: "snd (post_journal_entries db now body)
              = snd (createJournalEntry db now
                  \<lparr>ei_date = the (jb_date body), ei_description = the (jb_description body),
                   ei_isClosed = None\<rparr> ?lines)"
      by blast+
    from w s PostJournalEntry ok(3) have whole: "list_all wholeLine ?lines"
      and bound: "sum_list (map inputMagnitude ?lines) < 2 ^ 53"
      by auto
    from whole have wl: "\<forall>l\<in>set ?lines. wholeAmount (li_debitAmount l) \<and> wholeAmount (li_creditAmount l)"
      by (simp add: list_all_iff wholeLine_def)
    have bal: "sum_list (map (\<lambda>l. amountValue (li_debitAmount l)) ?lines)
               = sum_list (map (\<lambda>l. amountValue (li_creditAmount l)) ?lines)"
      by (rule accepted_balanced[where g = or0, OF _ wl])
         (use bound ok(2) in \<open>simp_all add: inputMagnitude_def[abs_def] sumDebit_def sumCredit_def\<close>)
    from createJournalEntry_consistent[OF c accounts_resolve[OF ok(1)] whole bal] r PostJournalEntry
    show ?thesis by simp
  qed
next
  case (PutJournalEntry now i body)
  show ?thesis
  proof (cases "findIndex (\<lambda>entry. entry_id entry = i) (journalEntries db)")
    case None
    with c PutJournalEntry show ?thesis by (simp add: put_journal_entries_shape)
  next
    case (Some k)
    from findIndex_Some[OF Some] have k: "k < length (journalEntries db)" by simp
    let ?db' = "db\<lparr>journalEntries := (journalEntries db)
          [k := (journalEntries db ! k)\<lparr>entry_date := ub_date body,
             entry_description := ub_description body, entry_updatedAt := now\<rparr>]\<rparr>"
    have "map entry_lines (journalEntries ?db') = map entry_lines (journalEntries db)"
      using k by (simp add: map_update_same)
    from consistent_frame[OF c _ this] have "consistent ?db'" by simp
    with Some PutJournalEntry show ?thesis by (simp add: put_journal_entries_shape)
  qed
next
  case (DeleteJournalEntry i)
  show ?thesis
  proof (cases "findIndex (\<lambda>entry. entry_id entry = i) (journalEntries db)")
    case None
    with c DeleteJournalEntry show ?thesis by (simp add: delete_journal_entries_shape)
  next
    case (Some k)
    have sub: "set (splice1 k (map entry_lines (journalEntries db)))
               \<subseteq> set (map entry_lines (journalEntries db))"
      by (rule set_splice1)
    have "consistent (db\<lparr>journalEntries := splice1 k (journalEntries db)\<rparr>)"
      unfolding consistent_iff
      using c[unfolded consistent_iff] sub
      by (auto simp: map_splice1)
    with Some DeleteJournalEntry show ?thesis by (simp add: delete_journal_entries_shape)
  qed
next
  case (CreateJournalEntryTool now params)
  show ?thesis
  proof (cases "snd (mcp_createJournalEntry db now params) = db")
    case True
    with c CreateJournalEntryTool show ?thesis by simp
  next
    case False
    with mcp_createJournalEntry_shape[of db now params]
    obtain entryLines where res: "resolveLines db (the (mp_lines params)) = Inr entryLines"
      and ok: "\<not> js_gt (js_abs (js_sub (totalOf li_debitAmount entryLines)
                               (totalOf li_creditAmount entryLines))) lit_0_01"
        "mp_lines params \<noteq> None"
      and r: "snd (mcp_createJournalEntry db now params)
              = snd (createJournalEntry db now
                  \<lparr>ei_date = the (mp_date params), ei_description = the (mp_description params),
                   ei_isClosed = None\<rparr> entryLines)"
      by blast
    from w s CreateJournalEntryTool ok(2)
    have "list_all wholeToolLine (the (mp_lines params))"
      and "sum_list (map toolMagnitude (the (mp_lines params))) < 2 ^ 53"
      by auto
    with resolveLines_whole[OF res] resolveLines_magnitude[OF res]
    have whole: "list_all wholeLine entryLines"
      and bound: "sum_list (map inputMagnitude entryLines) < 2 ^ 53"
      by simp_all
    from whole have wl: "\<forall>l\<in>set entryLines. wholeAmount (li_debitAmount l) \<and> wholeAmount (li_creditAmount l)"
      by (simp add: list_all_iff wholeLine_def)
    have bal: "sum_list (map (\<lambda>l. amountValue (li_debitAmount l)) entryLines)
               = sum_list (map (\<lambda>l. amountValue (li_creditAmount l)) entryLines)"
      by (rule accepted_balanced[where g = toNumber, OF _ wl])
         (use bound ok(1) in \<open>simp_all add: inputMagnitude_def[abs_def] totalOf_def\<close>)
    from createJournalEntry_consistent[OF c resolveLines_accounts[OF res] whole bal] r
      CreateJournalEntryTool
    show ?thesis by simp
  qed
next
  case (TestReset now)
  from c have "19 \<le> uuid_state db" by (simp add: consistent_iff standard_length)
  with TestReset show ?thesis
    by (simp add: consistent_iff resetDatabase_def standard_ids standard_length)
qed

lemma step_magnitude: "storeMagnitude (step db op) \<le> storeMagnitude db + submitted op"
proof (cases op)
  case (PostAccount now body)
  with post_accounts_shape[of db now body] show ?thesis
    by (auto simp: storeMagnitude_alt)
next
  case (PutAccount now i body)
  then show ?thesis by (simp add: storeMagnitude_alt)
next
  case (DeleteAccount i)
  then show ?thesis by (simp add: delete_accounts_shape storeMagnitude_alt split: option.split)
next
  case (PostJournalEntry now body)
  with post_journal_entries_shape[of db now body] submitted_nonneg[of op] show ?thesis
    by (auto simp: createJournalEntry_magnitude)
next
  case (PutJournalEntry now i body)
  show ?thesis
  proof (cases "findIndex (\<lambda>entry. entry_id entry = i) (journalEntries db)")
    case None
    with PutJournalEntry show ?thesis by (simp add: put_journal_entries_shape)
  next
    case (Some k)
    from findIndex_Some[OF Some] have k: "k < length (journalEntries db)" by simp
    then have "map entry_lines ((journalEntries db)
          [k := (journalEntries db ! k)\<lparr>entry_date := ub_date body,
             entry_description := ub_description body, entry_updatedAt := now\<rparr>])
          = map entry_lines (journalEntries db)"
      by (simp add: map_update_same)
    with Some PutJournalEntry show ?thesis
      by (simp add: put_journal_entries_shape storeMagnitude_alt)
  qed
next
  case (DeleteJournalEntry i)
  have "sum_list (map lineMagnitude (concat (splice1 k (map entry_lines (journalEntries db)))))
        \<le> sum_list (map lineMagnitude (concat (map entry_lines (journalEntries db))))" for k
    by (rule sum_concat_splice1_le) (rule lineMagnitude_nonneg)
  with DeleteJournalEntry show ?thesis
    by (simp add: delete_journal_entries_shape storeMagnitude_alt map_splice1
          split: option.split)
next
  case (CreateJournalEntryTool now params)
  show ?thesis
  proof (cases "snd (mcp_createJournalEntry db now params) = db")
    case True
    with CreateJournalEntryTool submitted_nonneg[of op] show ?thesis by simp
  next
    case False
    with mcp_createJournalEntry_shape[of db now params]
    obtain entryLines where res: "resolveLines db (the (mp_lines params)) = Inr entryLines"
      and ok: "mp_lines params \<noteq> None"
      and r: "snd (mcp_createJournalEntry db now params)
              = snd (createJournalEntry db now
                  \<lparr>ei_date = the (mp_date params), ei_description = the (mp_description params),
                   ei_isClosed = None\<rparr> entryLines)"
      by blast
    from r resolveLines_magnitude[OF res] ok CreateJournalEntryTool show ?thesis
      by (auto simp: createJournalEntry_magnitude)
  qed
next
  case (TestReset now)
  with storeMagnitude_nonneg[of db] show ?thesis
    by (simp add: resetDatabase_def storeMagnitude_alt)
qed

lemma run_consistent:
  "consistent db \<Longrightarrow> list_all wholeAmounts ops
     \<Longrightarrow> storeMagnitude db + sum_list (map submitted ops) < 2 ^ 53
     \<Longrightarrow> consistent (run ops db)
         \<and> storeMagnitude (run ops db) \<le> storeMagnitude db + sum_list (map submitted ops)"
proof (induction ops arbitrary: db)
  case Nil
  then show ?case by (simp add: run_def)
next
  case (Cons op ops)
  have nn: "0 \<le> sum_list (map submitted ops)"
    by (rule sum_list_nonneg) (auto simp: submitted_nonneg)
  from Cons.prems(3) nn storeMagnitude_nonneg[of db] have s: "submitted op < 2 ^ 53" by simp
  from Cons.prems(2) have w: "wholeAmounts op" "list_all wholeAmounts ops" by simp_all
  have c: "consistent (step db op)" by (rule step_consistent[OF Cons.prems(1) w(1) s])
  from step_magnitude[of db op] Cons.prems(3)
  have m: "storeMagnitude (step db op) + sum_list (map submitted ops) < 2 ^ 53" by simp
  from Cons.IH[OF c w(2) m] step_magnitude[of db op] show ?case
    by (simp add: run_def)
qed

lemma set_entriesAsOf: "set (entriesAsOf db asOfDate) \<subseteq> set (journalEntries db)"
  by (auto simp: entriesAsOf_def split: option.split)

lemma entriesAsOf_magnitude:
  "sum_list (map lineMagnitude (concat (map entry_lines (entriesAsOf db asOfDate))))
   \<le> storeMagnitude db"
proof -
  have "sum_list (map lineMagnitude (concat (map entry_lines (filter P (journalEntries db)))))
        \<le> storeMagnitude db" for P
    unfolding storeMagnitude_alt by (rule sum_list_concat_filter_le) (rule lineMagnitude_nonneg)
  then show ?thesis
    by (simp add: entriesAsOf_def storeMagnitude_alt split: option.split)
qed

lemma consistent_trial_balance:
  assumes c: "consistent db" and m: "storeMagnitude db < 2 ^ 53"
  shows "totalDebit (getTrialBalance db asOfDate)
           = Finite (sum_list (map entryDebit (entriesAsOf db asOfDate)))"
    and "totalCredit (getTrialBalance db asOfDate)
           = Finite (sum_list (map entryCredit (entriesAsOf db asOfDate)))"
    and "totalDebit (getTrialBalance db asOfDate) = totalCredit (getTrialBalance db asOfDate)"
proof -
  from c have dist: "distinct (map acc_id (accounts db))"
    and stored: "\<forall>l\<in>set (storedLines db).
                   line_accountId l \<in> acc_id ` set (accounts db) \<and> wholeStored l"
    and bal: "\<forall>e\<in>set (journalEntries db). entryDebit e = entryCredit e"
    by (simp_all add: consistent_def list_all_iff wholeStore_def)
  have sub: "set (concat (map entry_lines (entriesAsOf db asOfDate))) \<subseteq> set (storedLines db)"
    using set_entriesAsOf[of db asOfDate] by (auto simp: storedLines_def)
  from stored sub
  have refs: "\<forall>l\<in>set (concat (map entry_lines (entriesAsOf db asOfDate))).
                line_accountId l \<in> acc_id ` set (accounts db)"
    and whole: "\<forall>l\<in>set (concat (map entry_lines (entriesAsOf db asOfDate))). wholeStored l"
    by blast+
  from entriesAsOf_magnitude[of db asOfDate] m
  have bound: "sum_list (map lineMagnitude (concat (map entry_lines (entriesAsOf db asOfDate))))
               < 2 ^ 53"
    by simp
  show d: "totalDebit (getTrialBalance db asOfDate)
           = Finite (sum_list (map entryDebit (entriesAsOf db asOfDate)))"
    by (rule getTrialBalance_exact[OF dist refs whole bound])
  show cr: "totalCredit (getTrialBalance db asOfDate)
           = Finite (sum_list (map entryCredit (entriesAsOf db asOfDate)))"
    by (rule getTrialBalance_exact[OF dist refs whole bound])
  from bal set_entriesAsOf[of db asOfDate]
  have "map entryDebit (entriesAsOf db asOfDate) = map entryCredit (entriesAsOf db asOfDate)"
    by auto
  then have "sum_list (map entryDebit (entriesAsOf db asOfDate))
             = sum_list (map entryCredit (entriesAsOf db asOfDate))"
    by (rule arg_cong)
  with d cr show "totalDebit (getTrialBalance db asOfDate)
                  = totalCredit (getTrialBalance db asOfDate)"
    by simp
qed

section \<open>The trial balance after a run of operations\<close>

lemma fl_dyadic3: "fl (- (1 / 128)) = Finite (- (1 / 128))"
  using fl_exact[of "- 1" "- 7"] by simp

lemma toleranceDb_eval:
  "toleranceDb = exampleDb\<lparr>journalEntries :=
      [\<lparr>entry_id = 3, entry_date = Some ''2024-01-15'', entry_description = Some ''Entry'',
        entry_lines =
          [\<lparr>line_id = 4, line_journalEntryId = 3, line_accountId = 0,
            line_accountName = Some ''Cash'', line_debitAmount = Some (Finite 1),
            line_creditAmount = Some (Finite 0)\<rparr>,
           \<lparr>line_id = 6, line_journalEntryId = 3, line_accountId = 1,
            line_accountName = Some ''Sales'', line_debitAmount = Some (Finite 0),
            line_creditAmount = Some (Finite (129 / 128))\<rparr>],
        entry_createdAt = 5, entry_updatedAt = 5, entry_isClosed = None\<rparr>],
      uuid_state := 8\<rparr>"
  by (simp add: toleranceDb_def post_journal_entries_def example_defs getAccountById_def
        sumDebit_def sumCredit_def bothSides_def createJournalEntry_def uuidv4_def
        accountNameOf_def Let_def lit_0_01_eq fl_dyadic fl_dyadic3)

text \<open>
  C1, as stated, fails: the entry with debit 1 on cash and credit 129/128 on sales passes
  the balance check, whose tolerance is 0.01, and is stored; the trial balance then
  reports a total debit of 1 and a total credit of 129/128 (1.0078125, a double).
\<close>

theorem tolerated_entry_unbalances_trial_balance:
  "length (journalEntries exampleDb) = 0 \<and> length (journalEntries toleranceDb) = 1
   \<and> getTrialBalance toleranceDb None
       = \<lparr>totalDebit = Finite 1, totalCredit = Finite (129 / 128)\<rparr>
   \<and> totalDebit (getTrialBalance toleranceDb None)
       \<noteq> totalCredit (getTrialBalance toleranceDb None)"
  by (simp add: toleranceDb_eval exampleDb_def seedAccount_def getTrialBalance_def
        entriesAsOf_def initAmounts_def tbLine_def tbTotals_def Let_def fl_dyadic)

lemma take_whole: "list_all wholeAmounts ops \<Longrightarrow> list_all wholeAmounts (take n ops)"
  by (auto simp: list_all_iff dest: in_set_takeD)

lemma take_submitted: "sum_list (map submitted (take n ops)) \<le> sum_list (map submitted ops)"
proof -
  have "sum_list (map submitted ops)
        = sum_list (map submitted (take n ops)) + sum_list (map submitted (drop n ops))"
    by (metis append_take_drop_id map_append sum_list.append)
  moreover have "0 \<le> sum_list (map submitted (drop n ops))"
    by (rule sum_list_nonneg) (auto simp: submitted_nonneg)
  ultimately show ?thesis by simp
qed

lemma newDatabase_magnitude: "storeMagnitude (newDatabase now) = 0"
  by (simp add: storeMagnitude_alt newDatabase_def)

text \<open>
  C1, amended. Run any sequence of operations of the program from its initial store. If
  every line submitted to a create carries whole-number amounts (over REST both amounts
  are present; for the tool after \<^verbatim>\<open>|| 0\<close>), and the absolute amounts of all submitted
  lines add up to less than \<open>2 ^ 53\<close>, then after every operation of the sequence and for
  every as-of date the two totals of the trial balance are equal; both are the exact sum
  of the debit amounts of the included entries.
\<close>

theorem trial_balance_of_whole_amounts_is_balanced:
  assumes "list_all wholeAmounts ops" "sum_list (map submitted ops) < 2 ^ 53"
  shows "totalDebit (getTrialBalance (run (take n ops) (newDatabase now)) asOfDate)
           = totalCredit (getTrialBalance (run (take n ops) (newDatabase now)) asOfDate)
       \<and> totalDebit (getTrialBalance (run (take n ops) (newDatabase now)) asOfDate)
           = Finite (sum_list (map entryDebit
               (entriesAsOf (run (take n ops) (newDatabase now)) asOfDate)))"
proof -
  let ?db = "run (take n ops) (newDatabase now)"
  from assms(2) take_submitted[of n ops]
  have b: "storeMagnitude (newDatabase now) + sum_list (map submitted (take n ops)) < 2 ^ 53"
    by (simp add: newDatabase_magnitude)
  from run_consistent[OF newDatabase_consistent take_whole[OF assms(1)] b]
  have c: "consistent ?db"
    and "storeMagnitude ?db
         \<le> storeMagnitude (newDatabase now) + sum_list (map submitted (take n ops))"
    by simp_all
  with b have m: "storeMagnitude ?db < 2 ^ 53" by simp
  from consistent_trial_balance(3)[OF c m] consistent_trial_balance(1)[OF c m]
  show ?thesis by simp
qed

lemma exampleOps_whole:
  "list_all wholeAmounts exampleOps" "sum_list (map submitted exampleOps) = 20500"
  by (simp_all add: exampleOps_def restBody_def restLine_def mcpParams_def mcpLine_def
        wholeLine_def wholeToolLine_def inputMagnitude_def toolMagnitude_def)

theorem trial_balance_of_whole_amounts_is_balanced_witness:
  "list_all wholeAmounts exampleOps \<and> sum_list (map submitted exampleOps) = 20500
   \<and> map entry_id (journalEntries (run (take 4 exampleOps) (newDatabase 0))) = [19, 24]
   \<and> totalDebit (getTrialBalance (run (take 4 exampleOps) (newDatabase 0))
        (Some ''2024-01-31''))
     = totalCredit (getTrialBalance (run (take 4 exampleOps) (newDatabase 0))
        (Some ''2024-01-31''))"
proof -
  have t: "take 4 exampleOps = exampleOps" by (simp add: exampleOps_def)
  from exampleOps_whole(2) have "sum_list (map submitted exampleOps) < 2 ^ 53" by simp
  from trial_balance_of_whole_amounts_is_balanced
         [OF exampleOps_whole(1) this, of 4 0 "Some ''2024-01-31''"]
  show ?thesis using exampleOps_whole exampleRun by (simp add: t)
qed

section \<open>Amounts outside the whole numbers below \<open>2 ^ 53\<close>\<close>

text \<open>
  Two runs of \<^verbatim>\<open>POST /journal-entries\<close> outside the hypotheses of the two amended
  statements. With amounts 1, 10000000000000000 and 1 on the debit side the sum of the
  check rounds to the credit sum 10000000000000000, the entry is stored, and the trial
  balance, which adds by account, reports 10000000000000002 against 10000000000000000.
  With lines that carry one amount only, the missing amount enters the reports as
  \<^verbatim>\<open>undefined\<close>: the account's total becomes not-a-number and \<^verbatim>\<open>|| 0\<close> drops it from the
  trial balance, and the account balance is not-a-number.
\<close>

lemma fl_1e16: "fl 10000000000000000 = Finite 10000000000000000"
  using fl_exact[of 152587890625 16] by simp

lemma fl_1e16_2: "fl 10000000000000002 = Finite 10000000000000002"
  using fl_exact[of 5000000000000001 1] by simp

lemma large_amounts_round:
  "length (journalEntries largeDb) = 1
   \<and> getTrialBalance largeDb None
       = \<lparr>totalDebit = Finite 10000000000000002, totalCredit = Finite 10000000000000000\<rparr>"
  by (simp add: largeDb_def post_journal_entries_def example_defs getAccountById_def
        sumDebit_def sumCredit_def bothSides_def createJournalEntry_def uuidv4_def
        accountNameOf_def Let_def lit_0_01_eq fl_e16 fl_1e16 fl_1e16_2
        getTrialBalance_def entriesAsOf_def initAmounts_def tbLine_def tbTotals_def)

lemma missing_amounts_are_stored:
  "length (journalEntries incompleteDb) = 2
   \<and> getTrialBalance incompleteDb None = \<lparr>totalDebit = Finite 150, totalCredit = Finite 50\<rparr>
   \<and> getAccountBalance incompleteDb 1 None = NaN"
  by (simp add: incompleteDb_def post_journal_entries_def example_defs getAccountById_def
        sumDebit_def sumCredit_def bothSides_def createJournalEntry_def uuidv4_def
        accountNameOf_def Let_def lit_0_01_eq
        getTrialBalance_def entriesAsOf_def initAmounts_def tbLine_def tbTotals_def
        getAccountBalance_def balanceLine_def debitNormal_def js_sub_def)

end
